theory Spec2Isabelle
  imports Complex_Main
begin

section \<open>Floating-point cells\<close>

text \<open>
  The importance tables of \<^verbatim>\<open>importance.py\<close> hold IEEE doubles. A cell is modelled as
  an exact real number or one of the three special values; rounding, overflow and the
  sign of zero are not modelled (a zero divisor counts as \<open>+0.0\<close>, which is what
  \<open>1. - 1.0\<close> and \<open>-(-0.0)\<close> give in the source). \<open>NaN\<close> is also pandas' missing
  marker.
\<close>

datatype fval = Fin real | PInf | NInf | NaN

fun fneg :: "fval \<Rightarrow> fval" where
  "fneg (Fin a) = Fin (- a)"
| "fneg PInf = NInf"
| "fneg NInf = PInf"
| "fneg NaN = NaN"

fun fadd :: "fval \<Rightarrow> fval \<Rightarrow> fval" where
  "fadd (Fin a) (Fin b) = Fin (a + b)"
| "fadd NaN y = NaN"
| "fadd x NaN = NaN"
| "fadd PInf NInf = NaN"
| "fadd NInf PInf = NaN"
| "fadd PInf y = PInf"
| "fadd x PInf = PInf"
| "fadd NInf y = NInf"
| "fadd x NInf = NInf"

definition fsub :: "fval \<Rightarrow> fval \<Rightarrow> fval" where
  "fsub x y = fadd x (fneg y)"

fun fmul :: "fval \<Rightarrow> fval \<Rightarrow> fval" where
  "fmul (Fin a) (Fin b) = Fin (a * b)"
| "fmul NaN y = NaN"
| "fmul x NaN = NaN"
| "fmul (Fin a) PInf = (if a = 0 then NaN else if 0 < a then PInf else NInf)"
| "fmul (Fin a) NInf = (if a = 0 then NaN else if 0 < a then NInf else PInf)"
| "fmul PInf (Fin b) = (if b = 0 then NaN else if 0 < b then PInf else NInf)"
| "fmul NInf (Fin b) = (if b = 0 then NaN else if 0 < b then NInf else PInf)"
| "fmul PInf PInf = PInf"
| "fmul NInf NInf = PInf"
| "fmul PInf NInf = NInf"
| "fmul NInf PInf = NInf"

fun fdiv :: "fval \<Rightarrow> fval \<Rightarrow> fval" where
  "fdiv (Fin a) (Fin b) =
     (if b \<noteq> 0 then Fin (a / b)
      else if a = 0 then NaN else if 0 < a then PInf else NInf)"
| "fdiv NaN y = NaN"
| "fdiv x NaN = NaN"
| "fdiv (Fin a) PInf = Fin 0"
| "fdiv (Fin a) NInf = Fin 0"
| "fdiv PInf (Fin b) = (if 0 \<le> b then PInf else NInf)"
| "fdiv NInf (Fin b) = (if 0 \<le> b then NInf else PInf)"
| "fdiv PInf PInf = NaN"
| "fdiv PInf NInf = NaN"
| "fdiv NInf PInf = NaN"
| "fdiv NInf NInf = NaN"

fun fsqrt :: "fval \<Rightarrow> fval" where
  "fsqrt (Fin a) = (if a < 0 then NaN else Fin (sqrt a))"
| "fsqrt PInf = PInf"
| "fsqrt NInf = NaN"
| "fsqrt NaN = NaN"

fun is_fin :: "fval \<Rightarrow> bool" where
  "is_fin (Fin a) = True"
| "is_fin x = False"

section \<open>Column statistics of pandas and numpy\<close>

text \<open>
  \<^verbatim>\<open>Series.sum()\<close>, \<^verbatim>\<open>Series.mean()\<close> and \<^verbatim>\<open>Series.std()\<close> skip missing cells
  (\<open>skipna=True\<close>); \<open>std\<close> is the sample deviation (\<open>ddof=1\<close>), missing when fewer
  than two cells are present. Infinite cells are not skipped.
\<close>

definition notna :: "fval \<Rightarrow> bool" where
  "notna x = (x \<noteq> NaN)"

definition fsum :: "fval list \<Rightarrow> fval" where
  "fsum xs = foldr fadd xs (Fin 0)"

definition pd_sum :: "fval list \<Rightarrow> fval" where
  "pd_sum xs = fsum (filter notna xs)"

definition pd_mean :: "fval list \<Rightarrow> fval" where
  "pd_mean xs =
     (let vals = filter notna xs; count = length vals
      in if count = 0 then NaN else fdiv (fsum vals) (Fin (real count)))"

definition pd_std :: "fval list \<Rightarrow> fval" where
  "pd_std xs =
     (let vals = filter notna xs; count = length vals
      in if count \<le> 1 then NaN
         else let avg = fdiv (fsum vals) (Fin (real count));
                  sqr = map (\<lambda>v. fmul (fsub avg v) (fsub avg v)) vals
              in fsqrt (fdiv (fsum sqr) (Fin (real (count - 1)))))"

section \<open>Errors and the importance report\<close>

datatype error =
    PyException string
  | ValueError
  | IndexError
  | TypeError string
  | UnboundLocalError string
  | FitFailure

text \<open>A report has one row per feature: its name, the \<open>mean\<close> cell and the \<open>std\<close> cell.\<close>

type_synonym report = "(string \<times> fval \<times> fval) list"

definition rep_means :: "report \<Rightarrow> fval list" where
  "rep_means imp = map (\<lambda>(n, m, sd). m) imp"

definition rep_stds :: "report \<Rightarrow> fval list" where
  "rep_stds imp = map (\<lambda>(n, m, sd). sd) imp"

section \<open>Data: frames, classifiers and the external collaborators\<close>

text \<open>
  A feature matrix is a list of named columns, each holding one real per row (the row
  count of a matrix without columns is not represented). Column names are taken to be
  distinct, as \<^verbatim>\<open>X[col]\<close> and \<^verbatim>\<open>.loc[idx, col]\<close> address one column only then.
\<close>

type_synonym frame = "(string \<times> real list) list"

type_synonym span = "(int \<times> int) list"

definition columns :: "frame \<Rightarrow> string list" where
  "columns X = map fst X"

definition get_column :: "frame \<Rightarrow> string \<Rightarrow> real list" where
  "get_column X col = (case map_of X col of Some vs \<Rightarrow> vs | None \<Rightarrow> [])"

definition set_column :: "string \<Rightarrow> real list \<Rightarrow> frame \<Rightarrow> frame" where
  "set_column col new X = map (\<lambda>(n, vs). if n = col then (n, new) else (n, vs)) X"

text \<open>\<^verbatim>\<open>.iloc[idx]\<close> selects rows by position and raises on a position out of range.\<close>

definition take_idx :: "'a list \<Rightarrow> nat list \<Rightarrow> error + 'a list" where
  "take_idx xs idx =
     (if \<forall>i\<in>set idx. i < length xs then Inr (map (\<lambda>i. xs ! i) idx) else Inl IndexError)"

definition iloc :: "frame \<Rightarrow> nat list \<Rightarrow> error + frame" where
  "iloc X idx =
     (if \<forall>(n, vs)\<in>set X. \<forall>i\<in>set idx. i < length vs
      then Inr (map (\<lambda>(n, vs). (n, map (\<lambda>i. vs ! i) idx)) X)
      else Inl IndexError)"

definition take_idx_opt :: "'a list option \<Rightarrow> nat list \<Rightarrow> error + 'a list option" where
  "take_idx_opt sample_weight idx =
     (case sample_weight of
        None \<Rightarrow> Inr None
      | Some ws \<Rightarrow> (case take_idx ws idx of Inl e \<Rightarrow> Inl e | Inr v \<Rightarrow> Inr (Some v)))"

text \<open>Selecting the list of the one name \<open>feat_name\<close> from \<open>X\<close> (line 148): the sub-matrix
  of the columns of that name.\<close>

definition select_columns :: "frame \<Rightarrow> string \<Rightarrow> frame" where
  "select_columns X feat_name = filter (\<lambda>(n, vs). n = feat_name) X"

record tree =
  feature_importances :: "real list"

text \<open>
  A fitted model, with the attributes the source reads (their trailing underscore
  dropped); \<open>oob_score = None\<close> stands for a model without the attribute.
\<close>

record fitted =
  estimators :: "tree list"
  oob_score :: "real option"
  classes :: "int list"
  predict :: "frame \<Rightarrow> int list"
  predict_proba :: "frame \<Rightarrow> real list list"

text \<open>
  The classifier prototype. \<open>Bagging n_estimators max_samples min_w_leaf\<close> is the
  default built by \<^verbatim>\<open>feat_importance\<close>: a bagging ensemble of entropy-criterion trees,
  one feature per split, balanced class weights, out-of-bag scoring on.
\<close>

datatype 'h hyper = Bagging nat real real | Custom 'h

record 'h clf =
  n_jobs :: int
  hyper :: "'h hyper"

datatype cv_gen = PurgedKFold nat span real

record cont =
  cont_size :: "int list"
  cont_w :: "real list"
  cont_t1 :: span

datatype 'h event = EvFit "'h clf" frame "int list" "real list option"

text \<open>
  What the file imports and does not define: the classifier's \<^verbatim>\<open>fit\<close>, the two
  sklearn metrics, the splitter's \<^verbatim>\<open>split\<close> and \<^verbatim>\<open>np.random.shuffle\<close>, which
  draws from a generator state \<open>'r\<close>.
\<close>

record ('h, 'r) env =
  fit :: "'h clf \<Rightarrow> frame \<Rightarrow> int list \<Rightarrow> real list option \<Rightarrow> error + fitted"
  log_loss :: "int list \<Rightarrow> real list list \<Rightarrow> real list option \<Rightarrow> int list \<Rightarrow> real"
  accuracy_score :: "int list \<Rightarrow> int list \<Rightarrow> real list option \<Rightarrow> real"
  split :: "cv_gen \<Rightarrow> frame \<Rightarrow> (nat list \<times> nat list) list"
  shuffle :: "'r \<Rightarrow> real list \<Rightarrow> real list \<times> 'r"

text \<open>
  The store: data frames live at addresses, so that a copy and its original are
  different objects; \<open>fit_log\<close> records every call of \<^verbatim>\<open>fit\<close>, in order.
\<close>

record ('h, 'r) state =
  heap :: "nat \<Rightarrow> frame"
  nxt :: nat
  fit_log :: "'h event list"
  rng :: 'r

definition alloc :: "frame \<Rightarrow> ('h, 'r) state \<Rightarrow> nat \<times> ('h, 'r) state" where
  "alloc X s = (nxt s, s\<lparr>heap := (heap s)(nxt s := X), nxt := Suc (nxt s)\<rparr>)"

definition add_log :: "'h event list \<Rightarrow> ('h, 'r) state \<Rightarrow> ('h, 'r) state" where
  "add_log evs s = s\<lparr>fit_log := fit_log s @ evs\<rparr>"

section \<open>Mean decrease impurity\<close>

text \<open>
  \<open>imp_table\<close> is \<^verbatim>\<open>imp_df\<close> after \<^verbatim>\<open>DataFrame.from_dict(imp_dict, orient='index')\<close>:
  one row per tree. A row shorter than the widest one is padded with missing cells.
\<close>

definition imp_table :: "fitted \<Rightarrow> real list list" where
  "imp_table forest = map feature_importances (estimators forest)"

definition table_width :: "real list list \<Rightarrow> nat" where
  "table_width rows = foldr (\<lambda>r n. max (length r) n) rows 0"

definition table_col :: "real list list \<Rightarrow> nat \<Rightarrow> fval list" where
  "table_col rows j = map (\<lambda>r. if j < length r then Fin (r ! j) else NaN) rows"

definition replace0 :: "fval list \<Rightarrow> fval list" where
  "replace0 col = map (\<lambda>v. if v = Fin 0 then NaN else v) col"

text \<open>Lines 31 to 33: the \<open>mean\<close> and \<open>std\<close> columns before the normalisation.\<close>

definition mdi_agg :: "real list list \<Rightarrow> nat \<Rightarrow> fval \<times> fval" where
  "mdi_agg rows j =
     (let col = replace0 (table_col rows j)
      in (pd_mean col, fmul (pd_std col) (Fin (sqrt (real (length rows))))))"

definition feat_imp_MDI :: "fitted \<Rightarrow> string list \<Rightarrow> error + report" where
  "feat_imp_MDI forest feat_names =
     (let rows = imp_table forest
      in if table_width rows \<noteq> length feat_names then Inl ValueError
         else
           let imp = map (mdi_agg rows) [0..<length feat_names];
               total = pd_sum (map fst imp)
           in Inr (map (\<lambda>j. (feat_names ! j, fdiv (fst (imp ! j)) total,
                                 fdiv (snd (imp ! j)) total))
                       [0..<length feat_names]))"

section \<open>Mean decrease accuracy\<close>

text \<open>
  The score of one fitted model on one test partition (lines 81 to 89, and again 95 to
  103 on the permuted copy).
\<close>

definition fold_score ::
  "('h, 'r) env \<Rightarrow> string \<Rightarrow> fitted \<Rightarrow> frame \<Rightarrow> int list \<Rightarrow> real list option \<Rightarrow> real" where
  "fold_score e scoring clf_fit X_test y_test w_test =
     (if scoring = ''neg_log_loss''
      then - log_loss e y_test (predict_proba clf_fit X_test) w_test (classes clf_fit)
      else accuracy_score e y_test (predict clf_fit X_test) w_test)"

text \<open>\<^verbatim>\<open>np.random.shuffle(X_test_[col].values)\<close>: the column of the frame at \<open>a\<close> is
  permuted in place.\<close>

definition shuffle_column ::
  "('h, 'r) env \<Rightarrow> nat \<Rightarrow> string \<Rightarrow> ('h, 'r) state \<Rightarrow> ('h, 'r) state" where
  "shuffle_column e a col s =
     (let (vs, r) = shuffle e (rng s) (get_column (heap s a) col)
      in s\<lparr>heap := (heap s)(a := set_column col vs (heap s a)), rng := r\<rparr>)"

type_synonym table = "(string \<times> fval list) list"

definition loc_set :: "table \<Rightarrow> nat \<Rightarrow> string \<Rightarrow> fval \<Rightarrow> table" where
  "loc_set tab idx col v = map (\<lambda>(n, vs). if n = col then (n, vs[idx := v]) else (n, vs)) tab"

text \<open>One pass of the loop over the columns (lines 91 to 103); \<open>aT\<close> is the address of
  \<^verbatim>\<open>X_test\<close>.\<close>

definition mda_col ::
  "('h, 'r) env \<Rightarrow> string \<Rightarrow> fitted \<Rightarrow> nat \<Rightarrow> int list \<Rightarrow> real list option \<Rightarrow> nat \<Rightarrow> string \<Rightarrow>
   table \<times> ('h, 'r) state \<Rightarrow> table \<times> ('h, 'r) state" where
  "mda_col e scoring clf_fit aT y_test w_test idx col acc =
     (case acc of (scores_perm, s) \<Rightarrow>
        let (aC, s1) = alloc (heap s aT) s;
            s2 = shuffle_column e aC col s1;
            v = fold_score e scoring clf_fit (heap s2 aC) y_test w_test
        in (loc_set scores_perm idx col (Fin v), s2))"

text \<open>One pass of the loop over the folds (lines 67 to 103).\<close>

definition mda_fold ::
  "('h, 'r) env \<Rightarrow> 'h clf \<Rightarrow> nat \<Rightarrow> int list \<Rightarrow> real list option \<Rightarrow> string \<Rightarrow>
   nat \<times> nat list \<times> nat list \<Rightarrow> fval list \<times> table \<Rightarrow> ('h, 'r) state \<Rightarrow>
   (error + fval list \<times> table) \<times> ('h, 'r) state" where
  "mda_fold e clf aX y sample_weight scoring fld tabs s =
     (case fld of (idx, train, test) \<Rightarrow>
      case tabs of (scores, scores_perm) \<Rightarrow>
      case iloc (heap s aX) train of Inl err \<Rightarrow> (Inl err, s) | Inr X_train \<Rightarrow>
      case take_idx y train of Inl err \<Rightarrow> (Inl err, s) | Inr y_train \<Rightarrow>
      case take_idx_opt sample_weight train of Inl err \<Rightarrow> (Inl err, s) | Inr w_train \<Rightarrow>
      case iloc (heap s aX) test of Inl err \<Rightarrow> (Inl err, s) | Inr X_test \<Rightarrow>
      let (aT, s1) = alloc X_test s in
      case take_idx y test of Inl err \<Rightarrow> (Inl err, s1) | Inr y_test \<Rightarrow>
      case take_idx_opt sample_weight test of Inl err \<Rightarrow> (Inl err, s1) | Inr w_test \<Rightarrow>
      let s2 = add_log [EvFit clf X_train y_train w_train] s1 in
      case fit e clf X_train y_train w_train of Inl err \<Rightarrow> (Inl err, s2) | Inr clf_fit \<Rightarrow>
      let scores' = scores[idx := Fin (fold_score e scoring clf_fit (heap s2 aT) y_test w_test)];
          (scores_perm', s3) =
             fold (mda_col e scoring clf_fit aT y_test w_test idx) (columns (heap s2 aX))
                  (scores_perm, s2)
      in (Inr (scores', scores_perm'), s3))"

fun mda_folds ::
  "('h, 'r) env \<Rightarrow> 'h clf \<Rightarrow> nat \<Rightarrow> int list \<Rightarrow> real list option \<Rightarrow> string \<Rightarrow>
   (nat \<times> nat list \<times> nat list) list \<Rightarrow> fval list \<times> table \<Rightarrow> ('h, 'r) state \<Rightarrow>
   (error + fval list \<times> table) \<times> ('h, 'r) state" where
  "mda_folds e clf aX y sample_weight scoring [] tabs s = (Inr tabs, s)"
| "mda_folds e clf aX y sample_weight scoring (fld # flds) tabs s =
     (case mda_fold e clf aX y sample_weight scoring fld tabs s of
        (Inl err, s') \<Rightarrow> (Inl err, s')
      | (Inr tabs', s') \<Rightarrow> mda_folds e clf aX y sample_weight scoring flds tabs' s')"

text \<open>Lines 104 to 111: one cell of \<^verbatim>\<open>imp = imprv / max_imprv\<close>.\<close>

definition mda_ratio :: "string \<Rightarrow> fval \<Rightarrow> fval \<Rightarrow> fval" where
  "mda_ratio scoring score score_perm =
     (let imprv = fadd (fneg score_perm) score;
          max_imprv = (if scoring = ''neg_log_loss'' then fneg score_perm
                       else fsub (Fin 1) score_perm)
      in fdiv imprv max_imprv)"

text \<open>Lines 104 to 113: the report built from the two score tables.\<close>

definition mda_report :: "string \<Rightarrow> fval list \<Rightarrow> table \<Rightarrow> report" where
  "mda_report scoring scores scores_perm =
     map (\<lambda>(col, perm).
            let imp = map2 (mda_ratio scoring) scores perm
            in (col, pd_mean imp, fmul (pd_std imp) (Fin (sqrt (real (length scores))))))
         scores_perm"

definition feat_imp_MDA ::
  "('h, 'r) env \<Rightarrow> 'h clf \<Rightarrow> nat \<Rightarrow> int list \<Rightarrow> nat \<Rightarrow> span \<Rightarrow> real list option \<Rightarrow> real \<Rightarrow>
   string \<Rightarrow> ('h, 'r) state \<Rightarrow> (error + report \<times> fval) \<times> ('h, 'r) state" where
  "feat_imp_MDA e clf aX y n_splits t1 sample_weight pct_embargo scoring s =
     (if scoring \<notin> set [''neg_log_loss'', ''accuracy'']
      then (Inl (PyException ''wrong scoring method''), s)
      else
        let cv_gen = PurgedKFold n_splits t1 pct_embargo;
            index = [0..<n_splits];
            scores = replicate n_splits NaN;
            scores_perm = map (\<lambda>c. (c, replicate n_splits NaN)) (columns (heap s aX))
        in case mda_folds e clf aX y sample_weight scoring
                  (zip index (split e cv_gen (heap s aX))) (scores, scores_perm) s of
             (Inl err, s') \<Rightarrow> (Inl err, s')
           | (Inr (scores', scores_perm'), s') \<Rightarrow>
               (Inr (mda_report scoring scores' scores_perm', pd_mean scores'), s'))"

section \<open>Single feature importance\<close>

text \<open>
  \<^verbatim>\<open>cv_score\<close> is imported from \<^verbatim>\<open>finance_ml.model_selection\<close>; the operations below
  take it as a parameter: a function from the arguments of the call to the score
  vector (a numpy array) or the exception raised, together with the fits it performed.
  An optional argument the caller leaves out, or passes as \<^verbatim>\<open>None\<close>, is \<open>None\<close>.
\<close>

record 'h cv_call =
  cv_clf :: "'h clf"
  cv_X :: frame
  cv_y :: "int list"
  cv_sample_weight :: "real list option"
  cv_scoring :: string
  cv_n_splits :: "nat option"
  cv_t1 :: "span option"
  cv_gen_arg :: "cv_gen option"
  cv_pct_embargo :: "real option"
  cv_purging :: "bool option"

type_synonym 'h cv_score_fn = "'h cv_call \<Rightarrow> (error + real list) \<times> 'h event list"

text \<open>\<^verbatim>\<open>ndarray.mean()\<close> and \<^verbatim>\<open>ndarray.std()\<close> (population deviation, \<open>ddof=0\<close>).\<close>

definition np_mean :: "real list \<Rightarrow> fval" where
  "np_mean xs = (if xs = [] then NaN else Fin (sum_list xs / real (length xs)))"

definition np_std :: "real list \<Rightarrow> fval" where
  "np_std xs =
     (if xs = [] then NaN
      else Fin (sqrt ((\<Sum>x\<leftarrow>xs. (x - sum_list xs / real (length xs))\<^sup>2) / real (length xs))))"

text \<open>\<^verbatim>\<open>imp.loc[feat_name, 'mean'] = v\<close> and \<^verbatim>\<open>imp.loc[feat_name, 'std'] = v\<close>: the row
  is appended when the report has none of that name.\<close>

definition set_mean :: "report \<Rightarrow> string \<Rightarrow> fval \<Rightarrow> report" where
  "set_mean imp feat_name v =
     (if feat_name \<in> set (map fst imp)
      then map (\<lambda>(n, m, sd). if n = feat_name then (n, v, sd) else (n, m, sd)) imp
      else imp @ [(feat_name, v, NaN)])"

definition set_std :: "report \<Rightarrow> string \<Rightarrow> fval \<Rightarrow> report" where
  "set_std imp feat_name v =
     (if feat_name \<in> set (map fst imp)
      then map (\<lambda>(n, m, sd). if n = feat_name then (n, m, v) else (n, m, sd)) imp
      else imp @ [(feat_name, NaN, v)])"

fun sfi_loop ::
  "'h cv_score_fn \<Rightarrow> 'h cv_call \<Rightarrow> frame \<Rightarrow> string list \<Rightarrow> report \<Rightarrow> ('h, 'r) state \<Rightarrow>
   (error + report) \<times> ('h, 'r) state" where
  "sfi_loop cv_score call X [] imp s = (Inr imp, s)"
| "sfi_loop cv_score call X (feat_name # rest) imp s =
     (case cv_score (call\<lparr>cv_X := select_columns X feat_name\<rparr>) of
        (Inl err, evs) \<Rightarrow> (Inl err, add_log evs s)
      | (Inr scores, evs) \<Rightarrow>
          let imp1 = set_mean imp feat_name (np_mean scores);
              imp2 = set_std imp1 feat_name
                       (fmul (np_std scores) (Fin (sqrt (real (length scores)))))
          in sfi_loop cv_score call X rest imp2 (add_log evs s))"

definition feat_imp_SFI ::
  "'h cv_score_fn \<Rightarrow> 'h clf \<Rightarrow> frame \<Rightarrow> int list \<Rightarrow> real list option \<Rightarrow> string \<Rightarrow> nat \<Rightarrow>
   span option \<Rightarrow> cv_gen option \<Rightarrow> real \<Rightarrow> bool \<Rightarrow> ('h, 'r) state \<Rightarrow>
   (error + report) \<times> ('h, 'r) state" where
  "feat_imp_SFI cv_score clf X y sample_weight scoring n_splits t1 cv_gen pct_embargo purging s =
     sfi_loop cv_score
       \<lparr>cv_clf = clf, cv_X = X, cv_y = y, cv_sample_weight = sample_weight,
        cv_scoring = scoring, cv_n_splits = Some n_splits, cv_t1 = t1, cv_gen_arg = cv_gen,
        cv_pct_embargo = Some pct_embargo, cv_purging = Some purging\<rparr>
       X (columns X) [] s"

section \<open>Calling by keyword\<close>

text \<open>
  The dispatcher calls its task function with keyword arguments only. A Python call
  by keywords raises \<^verbatim>\<open>TypeError\<close> when a keyword is no parameter of the function or
  a parameter without default gets no value. \<open>feat_imp_SFI_params\<close> is the parameter
  list of line 117 (the flag marks a parameter without default). A value of another
  type than the parameter is used for stays outside the model.
\<close>

datatype 'h pyval =
    VNames "string list" | VClf "'h clf" | VFrame frame | VCont cont | VStr string
  | VCvGen cv_gen | VLabels "int list" | VWeights "real list" | VNat nat | VSpan span
  | VReal real | VBool bool

type_synonym 'h kwargs = "(string \<times> 'h pyval) list"

definition check_call :: "(string \<times> bool) list \<Rightarrow> string list \<Rightarrow> error option" where
  "check_call params keys =
     (case filter (\<lambda>k. k \<notin> set (map fst params)) keys of
        k # ks \<Rightarrow> Some (TypeError (''unexpected keyword argument '' @ k))
      | [] \<Rightarrow>
          (case filter (\<lambda>p. p \<notin> set keys) (map fst (filter snd params)) of
             q # qs \<Rightarrow> Some (TypeError (''missing required argument '' @ q))
           | [] \<Rightarrow> None))"

definition feat_imp_SFI_params :: "(string \<times> bool) list" where
  "feat_imp_SFI_params =
     [(''clf'', True), (''X'', True), (''y'', True), (''sample_weight'', False),
      (''scoring'', False), (''n_splits'', False), (''t1'', False), (''cv_gen'', False),
      (''pct_embargo'', False), (''purging'', False)]"

text \<open>The value bound to a keyword, when it has the type the parameter is used for.\<close>

definition kw_clf :: "'h kwargs \<Rightarrow> string \<Rightarrow> 'h clf option" where
  "kw_clf kwargs k = (case map_of kwargs k of Some (VClf c) \<Rightarrow> Some c | _ \<Rightarrow> None)"

definition kw_frame :: "'h kwargs \<Rightarrow> string \<Rightarrow> frame option" where
  "kw_frame kwargs k = (case map_of kwargs k of Some (VFrame X) \<Rightarrow> Some X | _ \<Rightarrow> None)"

definition kw_labels :: "'h kwargs \<Rightarrow> string \<Rightarrow> int list option" where
  "kw_labels kwargs k = (case map_of kwargs k of Some (VLabels y) \<Rightarrow> Some y | _ \<Rightarrow> None)"

definition kw_weights :: "'h kwargs \<Rightarrow> string \<Rightarrow> real list option" where
  "kw_weights kwargs k = (case map_of kwargs k of Some (VWeights ws) \<Rightarrow> Some ws | _ \<Rightarrow> None)"

definition kw_str :: "'h kwargs \<Rightarrow> string \<Rightarrow> string option" where
  "kw_str kwargs k = (case map_of kwargs k of Some (VStr v) \<Rightarrow> Some v | _ \<Rightarrow> None)"

definition kw_nat :: "'h kwargs \<Rightarrow> string \<Rightarrow> nat option" where
  "kw_nat kwargs k = (case map_of kwargs k of Some (VNat n) \<Rightarrow> Some n | _ \<Rightarrow> None)"

definition kw_span :: "'h kwargs \<Rightarrow> string \<Rightarrow> span option" where
  "kw_span kwargs k = (case map_of kwargs k of Some (VSpan t) \<Rightarrow> Some t | _ \<Rightarrow> None)"

definition kw_cv_gen :: "'h kwargs \<Rightarrow> string \<Rightarrow> cv_gen option" where
  "kw_cv_gen kwargs k = (case map_of kwargs k of Some (VCvGen g) \<Rightarrow> Some g | _ \<Rightarrow> None)"

definition kw_real :: "'h kwargs \<Rightarrow> string \<Rightarrow> real option" where
  "kw_real kwargs k = (case map_of kwargs k of Some (VReal p) \<Rightarrow> Some p | _ \<Rightarrow> None)"

definition kw_bool :: "'h kwargs \<Rightarrow> string \<Rightarrow> bool option" where
  "kw_bool kwargs k = (case map_of kwargs k of Some (VBool b) \<Rightarrow> Some b | _ \<Rightarrow> None)"

definition or_default :: "'a option \<Rightarrow> 'a \<Rightarrow> 'a" where
  "or_default v d = (case v of Some x \<Rightarrow> x | None \<Rightarrow> d)"

text \<open>\<^verbatim>\<open>feat_imp_SFI(**kwargs)\<close>, with the defaults of line 117.\<close>

definition feat_imp_SFI_call ::
  "'h cv_score_fn \<Rightarrow> 'h kwargs \<Rightarrow> ('h, 'r) state \<Rightarrow> (error + report) \<times> ('h, 'r) state" where
  "feat_imp_SFI_call cv_score kwargs s =
     (case check_call feat_imp_SFI_params (map fst kwargs) of
        Some err \<Rightarrow> (Inl err, s)
      | None \<Rightarrow>
          (case (kw_clf kwargs ''clf'', kw_frame kwargs ''X'', kw_labels kwargs ''y'') of
             (Some clf, Some X, Some y) \<Rightarrow>
               feat_imp_SFI cv_score clf X y
                 (kw_weights kwargs ''sample_weight'')
                 (or_default (kw_str kwargs ''scoring'') ''neg_log_loss'')
                 (or_default (kw_nat kwargs ''n_splits'') 3)
                 (kw_span kwargs ''t1'')
                 (kw_cv_gen kwargs ''cv_gen'')
                 (or_default (kw_real kwargs ''pct_embargo'') 0)
                 (or_default (kw_bool kwargs ''purging'') True)
                 s
           | _ \<Rightarrow> (Inl (TypeError ''argument type''), s)))"

text \<open>
  Modelled from the spec: \<^verbatim>\<open>mp_pandas_obj\<close> of \<^verbatim>\<open>finance_ml.multiprocessing\<close> is not
  in the source. The spec gives the dispatcher as
  \<^verbatim>\<open>map(function, arg_name, values, worker_count, **shared_kwargs)\<close>: one task per value,
  each calling the function with \<open>arg_name\<close> bound to its value and the shared keyword
  arguments, a failing task failing the whole computation, and the results concatenated.
  The tasks are independent, so they are run one after the other.
\<close>

fun run_tasks ::
  "('h kwargs \<Rightarrow> ('h, 'r) state \<Rightarrow> (error + report) \<times> ('h, 'r) state) \<Rightarrow> 'h kwargs list \<Rightarrow>
   ('h, 'r) state \<Rightarrow> (error + report) \<times> ('h, 'r) state" where
  "run_tasks func [] s = (Inr [], s)"
| "run_tasks func (job # jobs) s =
     (case func job s of
        (Inl err, s') \<Rightarrow> (Inl err, s')
      | (Inr out, s') \<Rightarrow>
          (case run_tasks func jobs s' of
             (Inl err, s'') \<Rightarrow> (Inl err, s'')
           | (Inr outs, s'') \<Rightarrow> (Inr (out @ outs), s'')))"

definition mp_pandas_obj ::
  "('h kwargs \<Rightarrow> ('h, 'r) state \<Rightarrow> (error + report) \<times> ('h, 'r) state) \<Rightarrow>
   string \<times> string list \<Rightarrow> nat \<Rightarrow> 'h kwargs \<Rightarrow> ('h, 'r) state \<Rightarrow>
   (error + report) \<times> ('h, 'r) state" where
  "mp_pandas_obj func pd_obj num_threads kwargs s =
     (case pd_obj of (arg_name, vals) \<Rightarrow>
        run_tasks func (map (\<lambda>v. (arg_name, VNames [v]) # kwargs) vals) s)"

section \<open>The orchestrator\<close>

text \<open>The third component of the result: a mean score for MDI and MDA, the score vector
  itself for SFI (line 189 takes no mean).\<close>

datatype oos = Scalar fval | Vector "real list"

text \<open>Lines 164 to 172: the prototype that is fitted.\<close>

definition build_clf :: "'h clf option \<Rightarrow> nat \<Rightarrow> nat \<Rightarrow> real \<Rightarrow> real \<Rightarrow> 'h clf" where
  "build_clf clf0 num_threads n_estimators max_samples min_w_leaf =
     (let n_jobs' = (if num_threads > 1 then - 1 else 1)
      in case clf0 of
           None \<Rightarrow> \<lparr>n_jobs = n_jobs', hyper = Bagging n_estimators max_samples min_w_leaf\<rparr>
         | Some c \<Rightarrow> c)"

definition feat_importance ::
  "('h, 'r) env \<Rightarrow> 'h cv_score_fn \<Rightarrow> nat \<Rightarrow> cont \<Rightarrow> 'h clf option \<Rightarrow> nat \<Rightarrow> nat \<Rightarrow> real \<Rightarrow>
   nat \<Rightarrow> real \<Rightarrow> string \<Rightarrow> string \<Rightarrow> real \<Rightarrow> ('h, 'r) state \<Rightarrow>
   (error + report \<times> real option \<times> oos) \<times> ('h, 'r) state" where
  "feat_importance e cv_score aX cont clf0 n_estimators n_splits max_samples num_threads
       pct_embargo scoring method min_w_leaf s =
     (let clf = build_clf clf0 num_threads n_estimators max_samples min_w_leaf;
          X = heap s aX;
          s1 = add_log [EvFit clf X (cont_size cont) (Some (cont_w cont))] s
      in case fit e clf X (cont_size cont) (Some (cont_w cont)) of
           Inl err \<Rightarrow> (Inl err, s1)
         | Inr fit_clf \<Rightarrow>
             let oob = oob_score fit_clf in
             if method = ''MDI'' then
               (case feat_imp_MDI fit_clf (columns X) of
                  Inl err \<Rightarrow> (Inl err, s1)
                | Inr imp \<Rightarrow>
                    (case cv_score \<lparr>cv_clf = clf, cv_X = X, cv_y = cont_size cont,
                            cv_sample_weight = Some (cont_w cont), cv_scoring = scoring,
                            cv_n_splits = Some n_splits, cv_t1 = Some (cont_t1 cont),
                            cv_gen_arg = None, cv_pct_embargo = Some pct_embargo,
                            cv_purging = None\<rparr> of
                       (Inl err, evs) \<Rightarrow> (Inl err, add_log evs s1)
                     | (Inr scores, evs) \<Rightarrow>
                         (Inr (imp, oob, Scalar (np_mean scores)), add_log evs s1)))
             else if method = ''MDA'' then
               (case feat_imp_MDA e clf aX (cont_size cont) n_splits (cont_t1 cont)
                       (Some (cont_w cont)) pct_embargo scoring s1 of
                  (Inl err, s2) \<Rightarrow> (Inl err, s2)
                | (Inr (imp, oos_mean), s2) \<Rightarrow> (Inr (imp, oob, Scalar oos_mean), s2))
             else if method = ''SFI'' then
               (let cv_gen = PurgedKFold n_splits (cont_t1 cont) pct_embargo
                in case cv_score \<lparr>cv_clf = clf, cv_X = X, cv_y = cont_size cont,
                          cv_sample_weight = Some (cont_w cont), cv_scoring = scoring,
                          cv_n_splits = None, cv_t1 = None, cv_gen_arg = Some cv_gen,
                          cv_pct_embargo = None, cv_purging = None\<rparr> of
                     (Inl err, evs) \<Rightarrow> (Inl err, add_log evs s1)
                   | (Inr scores, evs) \<Rightarrow>
                       (case mp_pandas_obj (feat_imp_SFI_call cv_score)
                               (''feat_names'', columns X) num_threads
                               [(''clf'', VClf (clf\<lparr>n_jobs := 1\<rparr>)), (''X'', VFrame X),
                                (''cont'', VCont cont), (''scoring'', VStr scoring),
                                (''cv_gen'', VCvGen cv_gen)]
                               (add_log evs s1) of
                          (Inl err, s3) \<Rightarrow> (Inl err, s3)
                        | (Inr imp, s3) \<Rightarrow> (Inr (imp, oob, Vector scores), s3)))
             else (Inl (UnboundLocalError ''imp''), s1))"

section \<open>Cross-validation scores\<close>

text \<open>
  Modelled from the spec: \<^verbatim>\<open>cv_score\<close> of \<^verbatim>\<open>finance_ml.model_selection\<close> is not in
  the source. The spec has an unknown scoring name fail before any fold executes, and a
  cross-validation fit and score once per fold of the splitter, which is built from the
  fold count, the event spans and the embargo when none is passed.
\<close>

fun cv_folds ::
  "('h, 'r) env \<Rightarrow> 'h clf \<Rightarrow> frame \<Rightarrow> int list \<Rightarrow> real list option \<Rightarrow> string \<Rightarrow>
   (nat list \<times> nat list) list \<Rightarrow> (error + real list) \<times> 'h event list" where
  "cv_folds e clf X y sample_weight scoring [] = (Inr [], [])"
| "cv_folds e clf X y sample_weight scoring ((train, test) # flds) =
     (case iloc X train of Inl err \<Rightarrow> (Inl err, []) | Inr X_train \<Rightarrow>
      case take_idx y train of Inl err \<Rightarrow> (Inl err, []) | Inr y_train \<Rightarrow>
      case take_idx_opt sample_weight train of Inl err \<Rightarrow> (Inl err, []) | Inr w_train \<Rightarrow>
      case iloc X test of Inl err \<Rightarrow> (Inl err, []) | Inr X_test \<Rightarrow>
      case take_idx y test of Inl err \<Rightarrow> (Inl err, []) | Inr y_test \<Rightarrow>
      case take_idx_opt sample_weight test of Inl err \<Rightarrow> (Inl err, []) | Inr w_test \<Rightarrow>
      let ev = EvFit clf X_train y_train w_train in
      case fit e clf X_train y_train w_train of Inl err \<Rightarrow> (Inl err, [ev]) | Inr clf_fit \<Rightarrow>
      (case cv_folds e clf X y sample_weight scoring flds of
         (Inl err, evs) \<Rightarrow> (Inl err, ev # evs)
       | (Inr scores, evs) \<Rightarrow>
           (Inr (fold_score e scoring clf_fit X_test y_test w_test # scores), ev # evs)))"

definition cv_score_spec :: "('h, 'r) env \<Rightarrow> 'h cv_score_fn" where
  "cv_score_spec e call =
     (if cv_scoring call \<notin> set [''neg_log_loss'', ''accuracy'']
      then (Inl (PyException ''wrong scoring method''), [])
      else
        let cv_gen =
              (case cv_gen_arg call of
                 Some g \<Rightarrow> g
               | None \<Rightarrow>
                   PurgedKFold (case cv_n_splits call of Some n \<Rightarrow> n | None \<Rightarrow> 3)
                               (case cv_t1 call of Some t \<Rightarrow> t | None \<Rightarrow> [])
                               (case cv_pct_embargo call of Some p \<Rightarrow> p | None \<Rightarrow> 0))
        in cv_folds e (cv_clf call) (cv_X call) (cv_y call) (cv_sample_weight call)
             (cv_scoring call) (split e cv_gen (cv_X call)))"

section \<open>Reference statistics\<close>

text \<open>
  The statistics the specification speaks of, on lists of reals: the mean, and the
  sample standard deviation (divisor \<open>n - 1\<close>); both are missing where undefined.
\<close>

definition sample_mean :: "real list \<Rightarrow> fval" where
  "sample_mean xs = (if xs = [] then NaN else Fin (sum_list xs / real (length xs)))"

definition sample_std :: "real list \<Rightarrow> fval" where
  "sample_std xs =
     (if length xs \<le> 1 then NaN
      else Fin (sqrt ((\<Sum>x\<leftarrow>xs. (sum_list xs / real (length xs) - x)\<^sup>2) / real (length xs - 1))))"

text \<open>The mean and the population standard deviation (divisor \<open>n\<close>) of a non-empty list.\<close>

definition mean_r :: "real list \<Rightarrow> real" where
  "mean_r xs = sum_list xs / real (length xs)"

definition population_std_r :: "real list \<Rightarrow> real" where
  "population_std_r xs = sqrt (sum_list (map (\<lambda>x. (x - mean_r xs)\<^sup>2) xs) / real (length xs))"

text \<open>The finite entries of a column, in order: what is left when the missing and the
  infinite cells are dropped.\<close>

fun finite_values :: "fval list \<Rightarrow> real list" where
  "finite_values [] = []"
| "finite_values (Fin a # xs) = a # finite_values xs"
| "finite_values (x # xs) = finite_values xs"

text \<open>The importances of feature \<open>j\<close> in the trees that used it.\<close>

definition mdi_used :: "fitted \<Rightarrow> nat \<Rightarrow> real list" where
  "mdi_used forest j =
     filter (\<lambda>v. v \<noteq> 0) (map (\<lambda>t. feature_importances t ! j) (estimators forest))"

definition mdi_total :: "fitted \<Rightarrow> nat \<Rightarrow> fval" where
  "mdi_total forest n = pd_sum (map (\<lambda>j. sample_mean (mdi_used forest j)) [0..<n])"

text \<open>The sum of the means of the features that some tree used.\<close>

definition mdi_norm :: "fitted \<Rightarrow> nat \<Rightarrow> real" where
  "mdi_norm forest n =
     sum_list (finite_values (map (\<lambda>j. sample_mean (mdi_used forest j)) [0..<n]))"

fun val0 :: "fval \<Rightarrow> real" where
  "val0 (Fin a) = a"
| "val0 x = 0"

text \<open>The denominator and the ratio of the permutation importance, on reals.\<close>

definition mda_denominator :: "string \<Rightarrow> real \<Rightarrow> real" where
  "mda_denominator scoring p = (if scoring = ''neg_log_loss'' then - p else 1 - p)"

definition mda_ratio_r :: "string \<Rightarrow> real \<Rightarrow> real \<Rightarrow> real" where
  "mda_ratio_r scoring b p = (b - p) / mda_denominator scoring p"

text \<open>Every frame that exists in \<open>s\<close> exists unchanged in \<open>s'\<close>.\<close>

definition frames_kept :: "('h, 'r) state \<Rightarrow> ('h, 'r) state \<Rightarrow> bool" where
  "frames_kept s s' = (nxt s \<le> nxt s' \<and> (\<forall>a<nxt s. heap s' a = heap s a))"

text \<open>The call of \<^verbatim>\<open>cv_score\<close> that \<open>feat_imp_SFI\<close> makes for one feature, and the row
  it writes from the scores.\<close>

definition sfi_call ::
  "'h clf \<Rightarrow> frame \<Rightarrow> int list \<Rightarrow> real list option \<Rightarrow> string \<Rightarrow> nat \<Rightarrow> span option \<Rightarrow>
   cv_gen option \<Rightarrow> real \<Rightarrow> bool \<Rightarrow> string \<Rightarrow> 'h cv_call" where
  "sfi_call clf X y sample_weight scoring n_splits t1 cv_gen pct_embargo purging feat_name =
     \<lparr>cv_clf = clf, cv_X = select_columns X feat_name, cv_y = y,
      cv_sample_weight = sample_weight, cv_scoring = scoring, cv_n_splits = Some n_splits,
      cv_t1 = t1, cv_gen_arg = cv_gen, cv_pct_embargo = Some pct_embargo,
      cv_purging = Some purging\<rparr>"

definition sfi_row :: "string \<Rightarrow> real list \<Rightarrow> string \<times> fval \<times> fval" where
  "sfi_row feat_name scores =
     (feat_name, np_mean scores, fmul (np_std scores) (Fin (sqrt (real (length scores)))))"

text \<open>The column names and lengths of a score table.\<close>

definition shape :: "table \<Rightarrow> (string \<times> nat) list" where
  "shape tab = map (\<lambda>(n, vs). (n, length vs)) tab"

text \<open>The scores of a table, as reals (a cell that is no finite score counts as zero).\<close>

definition reals_of :: "table \<Rightarrow> (string \<times> real list) list" where
  "reals_of tab = map (\<lambda>(c, vs). (c, map val0 vs)) tab"

text \<open>Row \<open>i\<close> of a score table holds a finite score in every column named in \<open>C\<close>.\<close>

definition col_fin :: "table \<Rightarrow> nat \<Rightarrow> string set \<Rightarrow> bool" where
  "col_fin tab i C = (\<forall>(c, vs)\<in>set tab. c \<in> C \<longrightarrow> is_fin (vs ! i))"

text \<open>The fits logged in \<open>s\<close> are a prefix of those logged in \<open>s'\<close>.\<close>

definition log_extended :: "('h, 'r) state \<Rightarrow> ('h, 'r) state \<Rightarrow> bool" where
  "log_extended s s' = (\<exists>evs. fit_log s' = fit_log s @ evs)"

section \<open>A small data set\<close>

text \<open>
  Four samples, two features; a classifier that predicts from the sign of feature
  \<open>a\<close>, two folds, and a shuffle that rotates the column by one row.
\<close>

definition ex_X :: frame where
  "ex_X = [(''a'', [1, - 1, 1, - 1]), (''b'', [2, 3, 5, 7])]"

definition ex_cont :: cont where
  "ex_cont = \<lparr>cont_size = [1, 0, 1, 0], cont_w = [1, 1, 1, 1],
              cont_t1 = [(0, 1), (1, 2), (2, 3), (3, 4)]\<rparr>"

definition ex_fitted :: fitted where
  "ex_fitted =
     \<lparr>estimators = [\<lparr>feature_importances = [1, 0]\<rparr>, \<lparr>feature_importances = [1 / 2, 1 / 2]\<rparr>],
      oob_score = Some (3 / 4),
      classes = [0, 1],
      predict = (\<lambda>X. map (\<lambda>v. if 0 < v then 1 else 0) (get_column X ''a'')),
      predict_proba = (\<lambda>X. map (\<lambda>v. if 0 < v then [0, 1] else [1, 0]) (get_column X ''a''))\<rparr>"

definition ex_env :: "(unit, nat) env" where
  "ex_env =
     \<lparr>fit = (\<lambda>clf X y w. Inr ex_fitted),
      log_loss =
        (\<lambda>y p w cs. 1 + real (length (filter (\<lambda>(a, q). q \<noteq> (if a = 1 then [0, 1] else [1, 0]))
                                               (zip y p)))),
      accuracy_score =
        (\<lambda>y p w. real (length (filter (\<lambda>(a, b). a = b) (zip y p))) / real (length y)),
      split = (\<lambda>g X. [([2, 3], [0, 1]), ([0, 1], [2, 3])]),
      shuffle = (\<lambda>r vs. (rotate1 vs, Suc r))\<rparr>"

definition ex_state :: "(unit, nat) state" where
  "ex_state = \<lparr>heap = (\<lambda>a. if a = 0 then ex_X else []), nxt = 1, fit_log = [], rng = 0\<rparr>"

definition ex_clf :: "unit clf" where
  "ex_clf = \<lparr>n_jobs = - 1, hyper = Bagging 10 1 0\<rparr>"


text \<open>A forest in which no tree used feature \<open>b\<close>.\<close>

definition ex_fitted_unused :: fitted where
  "ex_fitted_unused =
     \<lparr>estimators = [\<lparr>feature_importances = [1, 0]\<rparr>, \<lparr>feature_importances = [1 / 2, 0]\<rparr>],
      oob_score = None,
      classes = [0, 1],
      predict = (\<lambda>X. []),
      predict_proba = (\<lambda>X. [])\<rparr>"

text \<open>A classifier that predicts from the sign of the first column it is given.\<close>

definition ex_fitted_first :: fitted where
  "ex_fitted_first =
     \<lparr>estimators = [\<lparr>feature_importances = [1, 0]\<rparr>, \<lparr>feature_importances = [1 / 2, 1 / 2]\<rparr>],
      oob_score = Some (3 / 4),
      classes = [0, 1],
      predict = (\<lambda>X. case X of [] \<Rightarrow> [] | (n, vs) # rest \<Rightarrow> map (\<lambda>v. if 0 < v then 1 else 0) vs),
      predict_proba =
        (\<lambda>X. case X of [] \<Rightarrow> [] | (n, vs) # rest \<Rightarrow> map (\<lambda>v. if 0 < v then [0, 1] else [1, 0]) vs)\<rparr>"

definition ex_env_first :: "(unit, nat) env" where
  "ex_env_first = ex_env\<lparr>fit := (\<lambda>clf X y w. Inr ex_fitted_first)\<rparr>"

text \<open>Six samples and three folds; feature \<open>b\<close> plays no part in the prediction.\<close>

definition ex3_X :: frame where
  "ex3_X = [(''a'', [1, - 1, 1, - 1, 1, - 1]), (''b'', [2, 3, 5, 7, 11, 13])]"

definition ex3_env :: "(unit, nat) env" where
  "ex3_env =
     ex_env\<lparr>split := (\<lambda>g X. [([2, 3, 4, 5], [0, 1]), ([0, 1, 4, 5], [2, 3]), ([0, 1, 2, 3], [4, 5])])\<rparr>"

definition ex3_state :: "(unit, nat) state" where
  "ex3_state = \<lparr>heap = (\<lambda>a. if a = 0 then ex3_X else []), nxt = 1, fit_log = [], rng = 0\<rparr>"

section \<open>Statistics: the pandas columns against the reference statistics\<close>

lemma fsum_Nil: "fsum [] = Fin 0" by (simp add: fsum_def)
lemma fsum_Cons: "fsum (x # xs) = fadd x (fsum xs)" by (simp add: fsum_def)

lemma fsum_map_Fin: "fsum (map Fin xs) = Fin (sum_list xs)"
  by (induction xs) (simp_all add: fsum_Nil fsum_Cons)

lemma filter_notna_map_Fin: "filter notna (map Fin xs) = map Fin xs"
  by (induction xs) (simp_all add: notna_def)

lemma pd_mean_map_Fin: "pd_mean (map Fin xs) = sample_mean xs"
  by (simp add: pd_mean_def sample_mean_def filter_notna_map_Fin fsum_map_Fin Let_def)

lemma fsum_sqr: "fsum (map (\<lambda>v. fmul (fsub (Fin a) v) (fsub (Fin a) v)) (map Fin xs))
   = Fin (\<Sum>x\<leftarrow>xs. (a - x)\<^sup>2)"
  by (induction xs) (simp_all add: fsum_Nil fsum_Cons fsub_def power2_eq_square)

lemma pd_std_map_Fin: "pd_std (map Fin xs) = sample_std xs"
proof (cases "length xs \<le> 1")
  case True
  then show ?thesis by (simp add: pd_std_def sample_std_def filter_notna_map_Fin Let_def)
next
  case False
  define a where "a = sum_list xs / real (length xs)"
  define q where "q = (\<Sum>x\<leftarrow>xs. (a - x)\<^sup>2)"
  from False have n: "real (length xs) \<noteq> 0" "real (length xs - 1) \<noteq> 0" by auto
  have nonneg: "\<not> q / real (length xs - 1) < 0"
    unfolding q_def not_less by (intro divide_nonneg_nonneg sum_list_nonneg) auto
  have avg: "fdiv (fsum (map Fin xs)) (Fin (real (length xs))) = Fin a"
    using n by (simp add: fsum_map_Fin a_def)
  have "pd_std (map Fin xs) =
      fsqrt (fdiv (fsum (map (\<lambda>v. fmul (fsub (Fin a) v) (fsub (Fin a) v)) (map Fin xs)))
                  (Fin (real (length xs - 1))))"
    using False unfolding pd_std_def Let_def filter_notna_map_Fin length_map avg by simp
  also have "\<dots> = fsqrt (fdiv (Fin q) (Fin (real (length xs - 1))))"
    unfolding fsum_sqr q_def ..
  also have "\<dots> = Fin (sqrt (q / real (length xs - 1)))"
    using n(2) nonneg by (simp del: of_nat_diff)
  finally show ?thesis using False by (simp add: sample_std_def a_def q_def)
qed

lemma filter_notna_replace0:
  "filter notna (replace0 (map Fin xs)) = map Fin (filter (\<lambda>v. v \<noteq> 0) xs)"
  by (induction xs) (simp_all add: replace0_def notna_def)

lemma pd_mean_replace0: "pd_mean (replace0 (map Fin xs)) = sample_mean (filter (\<lambda>v. v \<noteq> 0) xs)"
proof -
  have "pd_mean (replace0 (map Fin xs)) = pd_mean (map Fin (filter (\<lambda>v. v \<noteq> 0) xs))"
    by (simp add: pd_mean_def filter_notna_replace0 filter_notna_map_Fin)
  then show ?thesis by (simp add: pd_mean_map_Fin)
qed

lemma pd_std_replace0: "pd_std (replace0 (map Fin xs)) = sample_std (filter (\<lambda>v. v \<noteq> 0) xs)"
proof -
  have "pd_std (replace0 (map Fin xs)) = pd_std (map Fin (filter (\<lambda>v. v \<noteq> 0) xs))"
    by (simp add: pd_std_def filter_notna_replace0 filter_notna_map_Fin)
  then show ?thesis by (simp add: pd_std_map_Fin)
qed

lemma table_col_rect:
  "\<forall>r\<in>set rows. j < length r \<Longrightarrow> table_col rows j = map Fin (map (\<lambda>r. r ! j) rows)"
  by (simp add: table_col_def)

lemma table_width_rect:
  "rows \<noteq> [] \<Longrightarrow> \<forall>r\<in>set rows. length r = n \<Longrightarrow> table_width rows = n"
  unfolding table_width_def
proof (induction rows)
  case Nil then show ?case by simp
next
  case (Cons r rows)
  then show ?case by (cases rows) simp_all
qed

lemma mdi_agg_rect:
  assumes "\<forall>r\<in>set (imp_table forest). j < length r"
  shows "mdi_agg (imp_table forest) j =
    (sample_mean (mdi_used forest j),
     fmul (sample_std (mdi_used forest j)) (Fin (sqrt (real (length (estimators forest))))))"
proof -
  have h: "table_col (imp_table forest) j = map Fin (map (\<lambda>t. feature_importances t ! j) (estimators forest))"
    using assms by (simp add: table_col_def imp_table_def)
  have len: "length (imp_table forest) = length (estimators forest)"
    by (simp add: imp_table_def)
  show ?thesis
    unfolding mdi_agg_def Let_def h len pd_mean_replace0 pd_std_replace0 mdi_used_def ..
qed

lemma pd_sum_semifinite:
  "\<forall>m\<in>set ms. m = NaN \<or> (\<exists>a. m = Fin a) \<Longrightarrow> pd_sum ms = Fin (sum_list (map val0 ms))"
  unfolding pd_sum_def
proof (induction ms)
  case Nil then show ?case by (simp add: fsum_Nil)
next
  case (Cons m ms)
  then show ?case by (auto simp: fsum_Cons notna_def)
qed

lemma pd_sum_fdiv_semifinite:
  "\<forall>m\<in>set ms. m = NaN \<or> (\<exists>a. m = Fin a) \<Longrightarrow> s \<noteq> 0 \<Longrightarrow>
   pd_sum (map (\<lambda>m. fdiv m (Fin s)) ms) = Fin (sum_list (map val0 ms) / s)"
  unfolding pd_sum_def
proof (induction ms)
  case Nil then show ?case by (simp add: fsum_Nil)
next
  case (Cons m ms)
  then show ?case by (auto simp: fsum_Cons notna_def add_divide_distrib)
qed

lemma sample_mean_pos:
  "\<forall>x\<in>set xs. 0 < x \<Longrightarrow> sample_mean xs = NaN \<and> xs = [] \<or> (\<exists>a. sample_mean xs = Fin a \<and> 0 < a \<and> xs \<noteq> [])"
proof (cases xs)
  case Nil then show ?thesis by (simp add: sample_mean_def)
next
  case (Cons x ys)
  assume pos: "\<forall>x\<in>set xs. 0 < x"
  then have "0 < sum_list xs" unfolding Cons
    by (simp add: add_pos_nonneg sum_list_nonneg less_imp_le)
  then show ?thesis using Cons by (simp add: sample_mean_def)
qed

lemma member_le_sum_list_real:
  fixes xs :: "real list"
  shows "x \<in> set xs \<Longrightarrow> \<forall>y\<in>set xs. 0 \<le> y \<Longrightarrow> x \<le> sum_list xs"
proof (induction xs)
  case Nil then show ?case by simp
next
  case (Cons y ys)
  then show ?case by (auto simp: sum_list_nonneg add_increasing add_increasing2)
qed

lemma mdi_agg_map:
  assumes "\<forall>r\<in>set (imp_table forest). length r = n"
  shows "map (mdi_agg (imp_table forest)) [0..<n] =
         map (\<lambda>j. (sample_mean (mdi_used forest j),
              fmul (sample_std (mdi_used forest j)) (Fin (sqrt (real (length (estimators forest))))))) [0..<n]"
  using assms by (intro map_cong refl mdi_agg_rect) auto

lemma feat_imp_MDI_rect:
  assumes ne: "estimators forest \<noteq> []"
      and rect: "\<forall>r\<in>set (imp_table forest). length r = length feat_names"
  shows "feat_imp_MDI forest feat_names =
     Inr (map (\<lambda>j. (feat_names ! j,
                  fdiv (sample_mean (mdi_used forest j)) (mdi_total forest (length feat_names)),
                  fdiv (fmul (sample_std (mdi_used forest j)) (Fin (sqrt (real (length (estimators forest))))))
                       (mdi_total forest (length feat_names))))
              [0..<length feat_names])"
proof -
  have w: "table_width (imp_table forest) = length feat_names"
    using ne rect by (intro table_width_rect) (auto simp: imp_table_def)
  show ?thesis
    unfolding feat_imp_MDI_def Let_def w mdi_agg_map[OF rect] mdi_total_def
    by (simp add: comp_def)
qed

section \<open>Mean decrease impurity: the report\<close>

text \<open>
  C3. In \<open>feat_imp_MDI\<close> a zero entry of the per-tree table becomes a missing cell
  before the aggregation: for a table with one entry per tree and feature, the mean and
  the deviation of feature \<open>j\<close> are those of the nonzero importances \<open>mdi_used forest j\<close>
  alone, and the dispersion is the sample deviation times the square root of the number
  of trees (all trees, not only those that used the feature). The returned row holds
  both, divided by the sum of the means.
\<close>

theorem mdi_zero_entries_excluded:
  assumes "estimators forest \<noteq> []"
      and "\<forall>r\<in>set (imp_table forest). length r = length feat_names"
      and "j < length feat_names"
  shows "mdi_agg (imp_table forest) j =
           (sample_mean (mdi_used forest j),
            fmul (sample_std (mdi_used forest j)) (Fin (sqrt (real (length (estimators forest))))))
       \<and> (\<exists>imp. feat_imp_MDI forest feat_names = Inr imp \<and> length imp = length feat_names
            \<and> imp ! j = (feat_names ! j,
                 fdiv (sample_mean (mdi_used forest j)) (mdi_total forest (length feat_names)),
                 fdiv (fmul (sample_std (mdi_used forest j)) (Fin (sqrt (real (length (estimators forest))))))
                      (mdi_total forest (length feat_names))))"
proof -
  have "mdi_agg (imp_table forest) j =
           (sample_mean (mdi_used forest j),
            fmul (sample_std (mdi_used forest j)) (Fin (sqrt (real (length (estimators forest))))))"
    using assms(2,3) by (intro mdi_agg_rect) auto
  then show ?thesis
    using assms(3) by (simp add: feat_imp_MDI_rect[OF assms(1,2)])
qed

theorem mdi_zero_entries_excluded_witness:
  "estimators ex_fitted \<noteq> []
   \<and> list_all (\<lambda>r. length r = length [''a'', ''b'']) (imp_table ex_fitted)
   \<and> (1::nat) < length [''a'', ''b'']
   \<and> mdi_used ex_fitted 1 = [1 / 2]
   \<and> mdi_agg (imp_table ex_fitted) 1 =
           (sample_mean (mdi_used ex_fitted 1),
            fmul (sample_std (mdi_used ex_fitted 1)) (Fin (sqrt (real (length (estimators ex_fitted))))))
   \<and> (\<exists>imp. feat_imp_MDI ex_fitted [''a'', ''b''] = Inr imp \<and> length imp = length [''a'', ''b'']
            \<and> imp ! 1 = ([''a'', ''b''] ! 1,
                 fdiv (sample_mean (mdi_used ex_fitted 1)) (mdi_total ex_fitted (length [''a'', ''b''])),
                 fdiv (fmul (sample_std (mdi_used ex_fitted 1)) (Fin (sqrt (real (length (estimators ex_fitted))))))
                      (mdi_total ex_fitted (length [''a'', ''b'']))))"
  using mdi_zero_entries_excluded[of ex_fitted "[''a'', ''b'']" 1]
  by (simp add: ex_fitted_def imp_table_def mdi_used_def)

lemma mdi_used_pos:
  assumes "\<forall>r\<in>set (imp_table forest). j < length r \<and> (\<forall>v\<in>set r. 0 \<le> v)"
  shows "\<forall>x\<in>set (mdi_used forest j). 0 < x"
proof
  fix x assume "x \<in> set (mdi_used forest j)"
  then obtain t where t: "t \<in> set (estimators forest)" "x = feature_importances t ! j" "x \<noteq> 0"
    by (auto simp: mdi_used_def)
  then have "feature_importances t \<in> set (imp_table forest)" by (simp add: imp_table_def)
  with assms have "j < length (feature_importances t)" "\<forall>v\<in>set (feature_importances t). 0 \<le> v"
    by auto
  then have "0 \<le> x" using t(2) by simp
  with t(3) show "0 < x" by simp
qed

lemma sum_list_finite_values: "sum_list (finite_values xs) = sum_list (map val0 xs)"
proof (induction xs)
  case Nil then show ?case by simp
next
  case (Cons x xs) then show ?case by (cases x) simp_all
qed

lemma sum_list_finite_values_fdiv:
  "\<forall>m\<in>set ms. m = NaN \<or> (\<exists>a. m = Fin a) \<Longrightarrow> s \<noteq> 0 \<Longrightarrow>
   sum_list (finite_values (map (\<lambda>m. fdiv m (Fin s)) ms)) = sum_list (map val0 ms) / s"
proof (induction ms)
  case Nil then show ?case by simp
next
  case (Cons m ms)
  then show ?case by (cases m) (auto simp: add_divide_distrib)
qed

lemma all_Fin_map: "\<forall>i<length xs. \<exists>a. xs ! i = Fin a \<Longrightarrow> xs = map Fin (finite_values xs)"
proof (induction xs)
  case Nil then show ?case by simp
next
  case (Cons x xs)
  from Cons.prems have "\<exists>a. (x # xs) ! 0 = Fin a" by blast
  then obtain a where a: "x = Fin a" by auto
  from Cons.prems have "\<forall>i<length xs. \<exists>a. xs ! i = Fin a" by fastforce
  from Cons.IH[OF this] a show ?case by simp
qed

lemmas mdi_eval = feat_imp_MDI_def mdi_agg_def imp_table_def table_width_def table_col_def
  replace0_def pd_mean_def pd_std_def pd_sum_def fsum_def notna_def fsub_def Let_def
  upt_rec[of 0] upt_rec[of 1]

text \<open>
  C2. For a fitted ensemble whose importance vectors are non-negative and not all zero,
  the means reported by \<open>feat_imp_MDI\<close> sum to one: every mean and every deviation is
  divided by \<open>mdi_norm\<close>, the sum of the means over the features that some tree used,
  which is positive. A feature no tree used has a missing mean, which the sum leaves
  out (as the sum of a pandas column does); when every feature is used, all the means
  are reals and their plain sum is one.
\<close>

theorem mdi_means_sum_to_one:
  assumes rect: "\<forall>r\<in>set (imp_table forest). length r = length feat_names"
      and nonneg: "\<forall>r\<in>set (imp_table forest). \<forall>v\<in>set r. 0 \<le> v"
      and nonzero: "\<exists>r\<in>set (imp_table forest). \<exists>v\<in>set r. v \<noteq> 0"
  shows "\<exists>imp. feat_imp_MDI forest feat_names = Inr imp \<and> length imp = length feat_names
     \<and> sum_list (finite_values (rep_means imp)) = 1
     \<and> 0 < mdi_norm forest (length feat_names)
     \<and> (\<forall>j<length feat_names.
          imp ! j = (feat_names ! j,
                     fdiv (sample_mean (mdi_used forest j)) (Fin (mdi_norm forest (length feat_names))),
                     fdiv (fmul (sample_std (mdi_used forest j))
                                (Fin (sqrt (real (length (estimators forest))))))
                          (Fin (mdi_norm forest (length feat_names))))
          \<and> ((rep_means imp ! j = NaN) = (mdi_used forest j = []))
          \<and> (mdi_used forest j \<noteq> [] \<longrightarrow> (\<exists>a. rep_means imp ! j = Fin a \<and> 0 < a)))
     \<and> ((\<forall>j<length feat_names. mdi_used forest j \<noteq> []) \<longrightarrow>
          (\<exists>ms. rep_means imp = map Fin ms \<and> sum_list ms = 1))"
proof -
  from nonzero have ne: "estimators forest \<noteq> []" by (auto simp: imp_table_def)
  let ?n = "length feat_names"
  let ?ms = "map (\<lambda>j. sample_mean (mdi_used forest j)) [0..<?n]"
  let ?S = "mdi_norm forest ?n"
  let ?imp = "map (\<lambda>j. (feat_names ! j,
                  fdiv (sample_mean (mdi_used forest j)) (Fin ?S),
                  fdiv (fmul (sample_std (mdi_used forest j)) (Fin (sqrt (real (length (estimators forest))))))
                       (Fin ?S))) [0..<?n]"
  have pos: "\<forall>x\<in>set (mdi_used forest j). 0 < x" if "j < ?n" for j
    using that rect nonneg by (intro mdi_used_pos) auto
  have cases: "sample_mean (mdi_used forest j) = NaN \<and> mdi_used forest j = [] \<or>
       (\<exists>a. sample_mean (mdi_used forest j) = Fin a \<and> 0 < a \<and> mdi_used forest j \<noteq> [])"
    if "j < ?n" for j using sample_mean_pos[OF pos[OF that]] .
  have semi: "\<forall>m\<in>set ?ms. m = NaN \<or> (\<exists>a. m = Fin a)"
  proof
    fix m assume "m \<in> set ?ms"
    then obtain j where j: "j < ?n" "m = sample_mean (mdi_used forest j)" by auto
    from cases[OF j(1)] j(2) show "m = NaN \<or> (\<exists>a. m = Fin a)" by blast
  qed
  have ge0: "\<forall>y\<in>set (map val0 ?ms). 0 \<le> y"
  proof
    fix y assume "y \<in> set (map val0 ?ms)"
    then obtain j where j: "j < ?n" "y = val0 (sample_mean (mdi_used forest j))" by auto
    from cases[OF j(1)] j(2) show "0 \<le> y" by auto
  qed
  from nonzero obtain r v where rv: "r \<in> set (imp_table forest)" "v \<in> set r" "v \<noteq> 0"
    by blast
  then obtain i where i: "i < length r" "r ! i = v" by (auto simp: in_set_conv_nth)
  from rv(1) rect have "length r = ?n" by simp
  with i have i_lt: "i < ?n" by simp
  from rv(1) obtain t where t: "t \<in> set (estimators forest)" "r = feature_importances t"
    by (auto simp: imp_table_def)
  have "v \<in> set (mdi_used forest i)"
    using t i rv(3) by (auto simp: mdi_used_def)
  then have "mdi_used forest i \<noteq> []" by auto
  with cases[OF i_lt] obtain a where a: "sample_mean (mdi_used forest i) = Fin a" "0 < a"
    by auto
  have "a \<in> set (map val0 ?ms)"
    using i_lt a(1) by (auto simp: image_iff intro!: bexI[of _ i])
  from member_le_sum_list_real[OF this ge0] a(2)
  have S0: "0 < sum_list (map val0 ?ms)" by simp
  have S_eq: "?S = sum_list (map val0 ?ms)"
    unfolding mdi_norm_def by (rule sum_list_finite_values)
  have S: "0 < ?S" using S0 S_eq by simp
  have tot: "mdi_total forest ?n = Fin ?S"
    unfolding mdi_total_def S_eq using semi by (rule pd_sum_semifinite)
  have run: "feat_imp_MDI forest feat_names = Inr ?imp"
    unfolding feat_imp_MDI_rect[OF ne rect] tot ..
  have means: "rep_means ?imp = map (\<lambda>m. fdiv m (Fin ?S)) ?ms"
    by (simp add: rep_means_def comp_def)
  have sum1: "sum_list (finite_values (rep_means ?imp)) = 1"
    unfolding means using sum_list_finite_values_fdiv[OF semi, of ?S] S S_eq by simp
  have nth: "rep_means ?imp ! j = fdiv (sample_mean (mdi_used forest j)) (Fin ?S)" if "j < ?n" for j
    using that unfolding means by simp
  have nan: "(rep_means ?imp ! j = NaN) = (mdi_used forest j = [])" if "j < ?n" for j
    using cases[OF that] S unfolding nth[OF that] by auto
  have fin: "\<exists>a. rep_means ?imp ! j = Fin a \<and> 0 < a" if "j < ?n" "mdi_used forest j \<noteq> []" for j
    using cases[OF that(1)] that(2) S unfolding nth[OF that(1)] by auto
  have rows: "\<forall>j<?n. ?imp ! j = (feat_names ! j,
                     fdiv (sample_mean (mdi_used forest j)) (Fin ?S),
                     fdiv (fmul (sample_std (mdi_used forest j))
                                (Fin (sqrt (real (length (estimators forest))))))
                          (Fin ?S))
          \<and> ((rep_means ?imp ! j = NaN) = (mdi_used forest j = []))
          \<and> (mdi_used forest j \<noteq> [] \<longrightarrow> (\<exists>a. rep_means ?imp ! j = Fin a \<and> 0 < a))"
    using nan fin by simp
  have all: "\<exists>ms. rep_means ?imp = map Fin ms \<and> sum_list ms = 1"
    if u: "\<forall>j<?n. mdi_used forest j \<noteq> []"
  proof -
    have "\<forall>i<length (rep_means ?imp). \<exists>a. rep_means ?imp ! i = Fin a"
    proof (intro allI impI)
      fix i assume "i < length (rep_means ?imp)"
      then have "i < ?n" by (simp add: rep_means_def)
      with fin u show "\<exists>a. rep_means ?imp ! i = Fin a" by blast
    qed
    from all_Fin_map[OF this] sum1 show ?thesis by blast
  qed
  have len: "length ?imp = ?n" by simp
  from run len sum1 S rows all show ?thesis by blast
qed

theorem mdi_means_sum_to_one_witness:
  "(\<exists>imp. feat_imp_MDI ex_fitted [''a'', ''b''] = Inr imp
        \<and> rep_means imp = map Fin [3 / 5, 2 / 5]
        \<and> sum_list (finite_values (rep_means imp)) = 1)
   \<and> (\<exists>imp. feat_imp_MDI ex_fitted_unused [''a'', ''b''] = Inr imp
        \<and> rep_means imp = [Fin 1, NaN]
        \<and> sum_list (finite_values (rep_means imp)) = 1)"
proof -
  have h1: "\<forall>r\<in>set (imp_table ex_fitted). length r = length [''a'', ''b'']"
    "\<forall>r\<in>set (imp_table ex_fitted). \<forall>v\<in>set r. 0 \<le> v"
    "\<exists>r\<in>set (imp_table ex_fitted). \<exists>v\<in>set r. v \<noteq> 0"
    by (simp_all add: imp_table_def ex_fitted_def)
  have h2: "\<forall>r\<in>set (imp_table ex_fitted_unused). length r = length [''a'', ''b'']"
    "\<forall>r\<in>set (imp_table ex_fitted_unused). \<forall>v\<in>set r. 0 \<le> v"
    "\<exists>r\<in>set (imp_table ex_fitted_unused). \<exists>v\<in>set r. v \<noteq> 0"
    by (simp_all add: imp_table_def ex_fitted_unused_def)
  from mdi_means_sum_to_one[OF h1] obtain imp1 where
    r1: "feat_imp_MDI ex_fitted [''a'', ''b''] = Inr imp1"
      "sum_list (finite_values (rep_means imp1)) = 1" by blast
  from mdi_means_sum_to_one[OF h2] obtain imp2 where
    r2: "feat_imp_MDI ex_fitted_unused [''a'', ''b''] = Inr imp2"
      "sum_list (finite_values (rep_means imp2)) = 1" by blast
  have e1: "feat_imp_MDI ex_fitted [''a'', ''b''] =
      Inr [(''a'', Fin (3 / 5), Fin (sqrt (1 / 8) * sqrt 2 * 4 / 5)), (''b'', Fin (2 / 5), NaN)]"
    by (simp add: mdi_eval ex_fitted_def)
  have e2: "feat_imp_MDI ex_fitted_unused [''a'', ''b''] =
      Inr [(''a'', Fin 1, Fin (sqrt (1 / 8) * sqrt 2 * 4 / 3)), (''b'', NaN, NaN)]"
    by (simp add: mdi_eval ex_fitted_unused_def)
  from r1(1) e1 have "imp1 = [(''a'', Fin (3 / 5), Fin (sqrt (1 / 8) * sqrt 2 * 4 / 5)),
      (''b'', Fin (2 / 5), NaN)]" by simp
  then have m1: "rep_means imp1 = map Fin [3 / 5, 2 / 5]" by (simp add: rep_means_def)
  from r2(1) e2 have "imp2 = [(''a'', Fin 1, Fin (sqrt (1 / 8) * sqrt 2 * 4 / 3)), (''b'', NaN, NaN)]"
    by simp
  then have m2: "rep_means imp2 = [Fin 1, NaN]" by (simp add: rep_means_def)
  from r1 m1 r2 m2 show ?thesis by blast
qed

section \<open>The orchestrator: an unknown method\<close>

text \<open>
  C10. For a method other than MDI, MDA and SFI, \<open>feat_importance\<close> never returns a
  report: once the prototype is fitted on the full data set, no branch binds \<^verbatim>\<open>imp\<close>
  and the return statement raises the unbound-variable error.
\<close>

theorem feat_importance_unknown_method:
  assumes "method \<notin> set [''MDI'', ''MDA'', ''SFI'']"
  shows "(\<forall>r. fst (feat_importance e cv_score aX cont clf0 n_estimators n_splits max_samples
                    num_threads pct_embargo scoring method min_w_leaf s) \<noteq> Inr r)
       \<and> (\<forall>fit_clf.
            fit e (build_clf clf0 num_threads n_estimators max_samples min_w_leaf) (heap s aX)
                (cont_size cont) (Some (cont_w cont)) = Inr fit_clf \<longrightarrow>
            feat_importance e cv_score aX cont clf0 n_estimators n_splits max_samples
                    num_threads pct_embargo scoring method min_w_leaf s =
              (Inl (UnboundLocalError ''imp''),
               add_log [EvFit (build_clf clf0 num_threads n_estimators max_samples min_w_leaf)
                          (heap s aX) (cont_size cont) (Some (cont_w cont))] s))"
  using assms by (simp add: feat_importance_def Let_def split: sum.splits)

theorem feat_importance_unknown_method_witness:
  "''XYZ'' \<notin> set [''MDI'', ''MDA'', ''SFI'']
   \<and> fit ex_env (build_clf None 24 10 1 0) (heap ex_state 0) (cont_size ex_cont) (Some (cont_w ex_cont))
       = Inr ex_fitted
   \<and> feat_importance ex_env (cv_score_spec ex_env) 0 ex_cont None 10 2 1 24 0 ''accuracy'' ''XYZ'' 0 ex_state
       = (Inl (UnboundLocalError ''imp''),
          add_log [EvFit (build_clf None 24 10 1 0) (heap ex_state 0) (cont_size ex_cont)
                     (Some (cont_w ex_cont))] ex_state)"
  using feat_importance_unknown_method[of "''XYZ''" ex_env "cv_score_spec ex_env" 0 ex_cont None 10 2 1 24 0
          "''accuracy''" 0 ex_state]
  by (simp add: ex_env_def)


section \<open>Scoring names\<close>

lemma add_log_Nil: "add_log [] s = s"
  by (simp add: add_log_def)

lemma add_log_add_log: "add_log evs' (add_log evs s) = add_log (evs @ evs') s"
  by (simp add: add_log_def)

lemma cv_score_spec_rejects:
  "cv_scoring call \<notin> set [''neg_log_loss'', ''accuracy''] \<Longrightarrow>
   cv_score_spec e call = (Inl (PyException ''wrong scoring method''), [])"
  by (simp add: cv_score_spec_def)

text \<open>
  C4 (as amended). For a scoring name other than \<^verbatim>\<open>neg_log_loss\<close> and \<^verbatim>\<open>accuracy\<close>,
  \<open>feat_imp_MDA\<close> raises at once, its state untouched: no fold, no fit. \<open>feat_imp_SFI\<close>
  has no check of its own: it raises when the matrix has a column and \<^verbatim>\<open>cv_score\<close>
  rejects the name without fitting, on the first feature.
\<close>

theorem invalid_scoring_fails_fast:
  assumes "scoring \<notin> set [''neg_log_loss'', ''accuracy'']"
      and "\<forall>call. cv_scoring call \<notin> set [''neg_log_loss'', ''accuracy''] \<longrightarrow>
             cv_score call = (Inl (PyException ''wrong scoring method''), [])"
      and "columns X \<noteq> []"
  shows "feat_imp_MDA e clf aX y n_splits t1 sample_weight pct_embargo scoring s =
           (Inl (PyException ''wrong scoring method''), s)
       \<and> feat_imp_SFI cv_score clf X y sample_weight scoring n_splits t1' cv_gen pct_embargo
            purging s = (Inl (PyException ''wrong scoring method''), s)"
proof -
  from assms(3) obtain c cs where cols: "columns X = c # cs" by (cases "columns X") auto
  have mda: "feat_imp_MDA e clf aX y n_splits t1 sample_weight pct_embargo scoring s =
           (Inl (PyException ''wrong scoring method''), s)"
    using assms(1) by (simp add: feat_imp_MDA_def)
  have sfi: "feat_imp_SFI cv_score clf X y sample_weight scoring n_splits t1' cv_gen pct_embargo
            purging s = (Inl (PyException ''wrong scoring method''), s)"
    unfolding feat_imp_SFI_def cols using assms(1,2) by (simp add: add_log_Nil)
  from mda sfi show ?thesis by simp
qed

theorem invalid_scoring_fails_fast_witness:
  "''foo'' \<notin> set [''neg_log_loss'', ''accuracy'']
   \<and> columns ex_X \<noteq> []
   \<and> feat_imp_MDA ex_env ex_clf 0 [1, 0, 1, 0] 2 [] None 0 ''foo'' ex_state =
           (Inl (PyException ''wrong scoring method''), ex_state)
   \<and> feat_imp_SFI (cv_score_spec ex_env) ex_clf ex_X [1, 0, 1, 0] None ''foo'' 2 None None 0
            True ex_state = (Inl (PyException ''wrong scoring method''), ex_state)"
  using invalid_scoring_fails_fast[of "''foo''" "cv_score_spec ex_env" ex_X ex_env ex_clf 0
          "[1, 0, 1, 0]" 2 "[]" None 0 ex_state None None True]
  by (simp add: cv_score_spec_rejects columns_def ex_X_def)

text \<open>
  The claim as written fails: on a matrix without columns \<open>feat_imp_SFI\<close> never calls
  \<^verbatim>\<open>cv_score\<close> and returns the empty report, whatever the scoring name.
\<close>

theorem sfi_invalid_scoring_no_columns:
  "''foo'' \<notin> set [''neg_log_loss'', ''accuracy'']
   \<and> feat_imp_SFI (cv_score_spec ex_env) ex_clf [] [1, 0, 1, 0] None ''foo'' 3 None None 0 True
        ex_state = (Inr [], ex_state)"
  by (simp add: feat_imp_SFI_def columns_def)

section \<open>Single feature importance: the report\<close>

lemma select_columns_distinct:
  "distinct (map fst X) \<Longrightarrow> c \<in> set (map fst X) \<Longrightarrow> select_columns X c = [(c, get_column X c)]"
proof (induction X)
  case Nil then show ?case by simp
next
  case (Cons x X)
  obtain n vs where x: "x = (n, vs)" by (cases x)
  show ?case
  proof (cases "n = c")
    case True
    with Cons.prems x have "c \<notin> fst ` set X" by auto
    then have "filter (\<lambda>(n, vs). n = c) X = []"
      by (force simp: filter_empty_conv image_iff)
    then show ?thesis using True x by (simp add: select_columns_def get_column_def)
  next
    case False
    with Cons x show ?thesis by (auto simp: select_columns_def get_column_def)
  qed
qed

lemma set_mean_fresh: "c \<notin> set (map fst imp) \<Longrightarrow> set_mean imp c m = imp @ [(c, m, NaN)]"
  by (simp add: set_mean_def)

lemma set_std_last:
  assumes "c \<notin> set (map fst imp)"
  shows "set_std (imp @ [(c, m, sd0)]) c sd = imp @ [(c, m, sd)]"
proof -
  have "map (\<lambda>(n, m, sda). if n = c then (n, m, sd) else (n, m, sda)) imp = imp"
    using assms by (induction imp) auto
  then show ?thesis by (simp add: set_std_def)
qed

lemma sfi_loop_ok:
  assumes "distinct names"
      and "set names \<inter> set (map fst imp) = {}"
      and "\<forall>c\<in>set names. \<exists>evs. cv_score (call\<lparr>cv_X := select_columns X c\<rparr>) = (Inr (sc c), evs)"
  shows "sfi_loop cv_score call X names imp s =
           (Inr (imp @ map (\<lambda>c. sfi_row c (sc c)) names),
            add_log (concat (map (\<lambda>c. snd (cv_score (call\<lparr>cv_X := select_columns X c\<rparr>))) names)) s)"
  using assms
proof (induction names arbitrary: imp s)
  case Nil
  then show ?case by (simp add: add_log_Nil)
next
  case (Cons c names)
  from Cons.prems(3) obtain evs where cv: "cv_score (call\<lparr>cv_X := select_columns X c\<rparr>) = (Inr (sc c), evs)"
    by auto
  from Cons.prems(2) have fresh: "c \<notin> set (map fst imp)" by auto
  let ?imp2 = "imp @ [sfi_row c (sc c)]"
  have upd: "set_std (set_mean imp c (np_mean (sc c))) c
               (fmul (np_std (sc c)) (Fin (sqrt (real (length (sc c)))))) = ?imp2"
    by (simp add: set_mean_fresh[OF fresh] set_std_last[OF fresh] sfi_row_def)
  have disj: "set names \<inter> set (map fst ?imp2) = {}"
    using Cons.prems(1,2) by (auto simp: sfi_row_def)
  have IH: "sfi_loop cv_score call X names ?imp2 (add_log evs s) =
           (Inr (?imp2 @ map (\<lambda>c. sfi_row c (sc c)) names),
            add_log (concat (map (\<lambda>c. snd (cv_score (call\<lparr>cv_X := select_columns X c\<rparr>))) names)) (add_log evs s))"
    using Cons.prems(1,3) by (intro Cons.IH disj) auto
  show ?case
    by (simp add: cv Let_def upd IH add_log_add_log del: sfi_loop.simps(2))
       (simp add: cv Let_def upd IH add_log_add_log)
qed

lemmas ex_defs = ex_X_def ex_cont_def ex_fitted_def ex_env_def ex_state_def ex_clf_def

lemmas eval_defs = iloc_def take_idx_def take_idx_opt_def columns_def get_column_def
  select_columns_def fold_score_def cv_score_spec_def Let_def

lemma sfi_row_explicit:
  "sfi_row c scores =
     (if scores = [] then (c, NaN, NaN)
      else (c, Fin (mean_r scores), Fin (population_std_r scores * sqrt (real (length scores)))))"
  by (simp add: sfi_row_def np_mean_def np_std_def mean_r_def population_std_r_def)

lemma ex_population_std: "population_std_r [1, 1 / 2] = 1 / 4" "population_std_r [1 / 2, 1] = 1 / 4"
  "mean_r [1, 1 / 2] = 3 / 4" "mean_r [1 / 2, 1] = 3 / 4"
proof -
  have s: "sqrt (1 / 16) = 1 / 4" by (rule real_sqrt_unique) (simp_all add: power2_eq_square)
  show "population_std_r [1, 1 / 2] = 1 / 4" "population_std_r [1 / 2, 1] = 1 / 4"
    "mean_r [1, 1 / 2] = 3 / 4" "mean_r [1 / 2, 1] = 3 / 4"
    by (simp_all add: population_std_r_def mean_r_def power2_eq_square s)
qed

text \<open>
  C6. For a matrix with distinct column names on which every cross-validation succeeds,
  \<open>feat_imp_SFI\<close> calls \<^verbatim>\<open>cv_score\<close> once per column, in order, on the matrix of that
  single column, and the report holds for each feature the mean of its fold scores
  (their sum over their number) and their standard deviation times the square root of
  the number of scores. The deviation is that of the score vector as a numpy array: the
  population deviation, with divisor \<open>n\<close>. A feature with no score at all has both cells
  missing.
\<close>

theorem sfi_one_cross_validation_per_feature:
  assumes "distinct (columns X)"
      and "\<forall>c\<in>set (columns X). \<exists>evs.
             cv_score (sfi_call clf X y sample_weight scoring n_splits t1 cv_gen pct_embargo purging c)
               = (Inr (sc c), evs)"
  shows "feat_imp_SFI cv_score clf X y sample_weight scoring n_splits t1 cv_gen pct_embargo purging s =
           (Inr (map (\<lambda>c. if sc c = [] then (c, NaN, NaN)
                           else (c, Fin (mean_r (sc c)),
                                    Fin (population_std_r (sc c) * sqrt (real (length (sc c))))))
                     (columns X)),
            add_log (concat (map (\<lambda>c. snd (cv_score
                       (sfi_call clf X y sample_weight scoring n_splits t1 cv_gen pct_embargo purging c)))
                     (columns X))) s)
       \<and> (\<forall>c\<in>set (columns X).
            cv_X (sfi_call clf X y sample_weight scoring n_splits t1 cv_gen pct_embargo purging c)
              = [(c, get_column X c)])"
proof -
  let ?call = "\<lparr>cv_clf = clf, cv_X = X, cv_y = y, cv_sample_weight = sample_weight,
        cv_scoring = scoring, cv_n_splits = Some n_splits, cv_t1 = t1, cv_gen_arg = cv_gen,
        cv_pct_embargo = Some pct_embargo, cv_purging = Some purging\<rparr>"
  have call: "?call\<lparr>cv_X := select_columns X c\<rparr> =
      sfi_call clf X y sample_weight scoring n_splits t1 cv_gen pct_embargo purging c" for c
    by (simp add: sfi_call_def)
  have prem: "\<forall>c\<in>set (columns X). \<exists>evs.
      cv_score (?call\<lparr>cv_X := select_columns X c\<rparr>) = (Inr (sc c), evs)"
    using assms(2) unfolding call .
  have "sfi_loop cv_score ?call X (columns X) [] s =
           (Inr ([] @ map (\<lambda>c. sfi_row c (sc c)) (columns X)),
            add_log (concat (map (\<lambda>c. snd (cv_score (?call\<lparr>cv_X := select_columns X c\<rparr>))) (columns X))) s)"
    by (rule sfi_loop_ok[OF assms(1) _ prem]) simp
  then have main: "feat_imp_SFI cv_score clf X y sample_weight scoring n_splits t1 cv_gen pct_embargo purging s =
           (Inr (map (\<lambda>c. if sc c = [] then (c, NaN, NaN)
                           else (c, Fin (mean_r (sc c)),
                                    Fin (population_std_r (sc c) * sqrt (real (length (sc c))))))
                     (columns X)),
            add_log (concat (map (\<lambda>c. snd (cv_score
                       (sfi_call clf X y sample_weight scoring n_splits t1 cv_gen pct_embargo purging c)))
                     (columns X))) s)"
    unfolding feat_imp_SFI_def call sfi_row_explicit by simp
  have single: "\<forall>c\<in>set (columns X).
            cv_X (sfi_call clf X y sample_weight scoring n_splits t1 cv_gen pct_embargo purging c)
              = [(c, get_column X c)]"
  proof
    fix c assume "c \<in> set (columns X)"
    then have "select_columns X c = [(c, get_column X c)]"
      using assms(1) unfolding columns_def by (rule select_columns_distinct[rotated])
    then show "cv_X (sfi_call clf X y sample_weight scoring n_splits t1 cv_gen pct_embargo purging c)
              = [(c, get_column X c)]"
      by (simp add: sfi_call_def)
  qed
  from main single show ?thesis by blast
qed

theorem sfi_one_cross_validation_per_feature_witness:
  "distinct (columns ex_X)
   \<and> fst (feat_imp_SFI (cv_score_spec ex_env_first) ex_clf ex_X [1, 0, 1, 1] None ''accuracy'' 2 None None
             0 True ex_state)
       = Inr [(''a'', Fin (3 / 4), Fin (1 / 4 * sqrt 2)), (''b'', Fin (3 / 4), Fin (1 / 4 * sqrt 2))]"
proof -
  let ?sc = "\<lambda>c. if c = ''a'' then [1, 1 / 2] else [1 / 2, 1::real]"
  have d: "distinct (columns ex_X)" by (simp add: columns_def ex_X_def)
  have cv: "\<forall>c\<in>set (columns ex_X). \<exists>evs.
      cv_score_spec ex_env_first (sfi_call ex_clf ex_X [1, 0, 1, 1] None ''accuracy'' 2 None None 0 True c)
        = (Inr (?sc c), evs)"
    by (simp add: sfi_call_def eval_defs ex_defs ex_env_first_def ex_fitted_first_def)
  from sfi_one_cross_validation_per_feature[OF d cv, of ex_state] d show ?thesis
    by (simp add: columns_def ex_X_def ex_population_std)
qed

section \<open>The orchestrator: the SFI branch\<close>

lemma feat_imp_SFI_call_feat_names:
  "feat_imp_SFI_call cv_score ((''feat_names'', v) # kwargs) s =
     (Inl (TypeError ''unexpected keyword argument feat_names''), s)"
  by (simp add: feat_imp_SFI_call_def check_call_def feat_imp_SFI_params_def)

lemma mp_pandas_obj_sfi_fails:
  "vals \<noteq> [] \<Longrightarrow>
   mp_pandas_obj (feat_imp_SFI_call cv_score) (''feat_names'', vals) num_threads kwargs s =
     (Inl (TypeError ''unexpected keyword argument feat_names''), s)"
  by (cases vals) (simp_all add: mp_pandas_obj_def feat_imp_SFI_call_feat_names)

lemma feat_importance_SFI_fails:
  assumes "columns (heap s aX) \<noteq> []"
      and "fit e (build_clf clf0 num_threads n_estimators max_samples min_w_leaf) (heap s aX)
              (cont_size cont) (Some (cont_w cont)) = Inr fit_clf"
  shows "\<exists>err. fst (feat_importance e cv_score aX cont clf0 n_estimators n_splits max_samples
            num_threads pct_embargo scoring ''SFI'' min_w_leaf s) = Inl err"
  using assms
  by (auto simp: feat_importance_def Let_def mp_pandas_obj_sfi_fails split: sum.splits prod.splits)

text \<open>
  C7. With method SFI the orchestrator sets \<^verbatim>\<open>n_jobs\<close> of the classifier to 1 and hands
  \<open>feat_imp_SFI\<close> to the dispatcher with the keywords \<^verbatim>\<open>feat_names\<close>, \<^verbatim>\<open>clf\<close>, \<^verbatim>\<open>X\<close>,
  \<^verbatim>\<open>cont\<close>, \<^verbatim>\<open>scoring\<close> and \<^verbatim>\<open>cv_gen\<close>. But \<open>feat_imp_SFI\<close> has no parameter
  \<^verbatim>\<open>feat_names\<close> or \<^verbatim>\<open>cont\<close> and requires \<^verbatim>\<open>y\<close>: the first task raises \<^verbatim>\<open>TypeError\<close>
  and no report is returned, for every matrix with a column
  (\<open>feat_importance_SFI_fails\<close>). On the small data set:
\<close>

theorem sfi_dispatch_type_error:
  "fst (feat_importance ex_env (cv_score_spec ex_env) 0 ex_cont None 10 2 1 24 0 ''accuracy''
          ''SFI'' 0 ex_state)
     = Inl (TypeError ''unexpected keyword argument feat_names'')"
  by (simp add: feat_importance_def mp_pandas_obj_sfi_fails eval_defs ex_defs)

text \<open>
  C8. The prototype is fitted on the full data set first, whatever the method
  (\<open>feat_importance_fits_first\<close> below), and the MDI and MDA branches return the triple;
  the SFI branch does not return: on the small data set the full fit is logged first
  and the call ends in the error of the dispatch.
\<close>

theorem feat_importance_sfi_no_triple:
  "(\<exists>evs. fit_log (snd (feat_importance ex_env (cv_score_spec ex_env) 0 ex_cont (Some ex_clf) 10 2 1
                    1 0 ''accuracy'' ''SFI'' 0 ex_state))
            = EvFit ex_clf ex_X (cont_size ex_cont) (Some (cont_w ex_cont)) # evs)
   \<and> (\<exists>err. fst (feat_importance ex_env (cv_score_spec ex_env) 0 ex_cont (Some ex_clf) 10 2 1 1 0
                    ''accuracy'' ''SFI'' 0 ex_state) = Inl err)"
  by (simp add: feat_importance_def build_clf_def mp_pandas_obj_sfi_fails add_log_def eval_defs ex_defs)

section \<open>Mean decrease accuracy: the report\<close>

lemma mda_ratio_Fin:
  "mda_ratio scoring (Fin b) (Fin p) =
     (if mda_denominator scoring p \<noteq> 0 then Fin (mda_ratio_r scoring b p)
      else if b - p = 0 then NaN else if 0 < b - p then PInf else NInf)"
  by (simp add: mda_ratio_def mda_denominator_def mda_ratio_r_def fsub_def Let_def)

lemma map2_mda_ratio_Fin:
  "\<forall>p\<in>set ps. mda_denominator scoring p \<noteq> 0 \<Longrightarrow>
   map2 (mda_ratio scoring) (map Fin bs) (map Fin ps) = map Fin (map2 (mda_ratio_r scoring) bs ps)"
proof (induction ps arbitrary: bs)
  case Nil then show ?case by simp
next
  case (Cons p ps)
  then show ?case by (cases bs) (simp_all add: mda_ratio_Fin)
qed

lemma mda_row_Fin:
  assumes "\<forall>p\<in>set ps. mda_denominator scoring p \<noteq> 0"
  shows "(let imp = map2 (mda_ratio scoring) (map Fin bs) (map Fin ps)
          in (c, pd_mean imp, fmul (pd_std imp) (Fin (sqrt (real (length (map Fin bs)))))))
       = (c, sample_mean (map2 (mda_ratio_r scoring) bs ps),
             fmul (sample_std (map2 (mda_ratio_r scoring) bs ps)) (Fin (sqrt (real (length bs)))))"
  unfolding Let_def map2_mda_ratio_Fin[OF assms] pd_mean_map_Fin pd_std_map_Fin length_map ..

lemma mda_report_Fin:
  assumes "\<forall>(c, ps)\<in>set perm. \<forall>p\<in>set ps. mda_denominator scoring p \<noteq> 0"
  shows "mda_report scoring (map Fin bs) (map (\<lambda>(c, ps). (c, map Fin ps)) perm) =
     map (\<lambda>(c, ps). (c, sample_mean (map2 (mda_ratio_r scoring) bs ps),
                      fmul (sample_std (map2 (mda_ratio_r scoring) bs ps)) (Fin (sqrt (real (length bs))))))
         perm"
  unfolding mda_report_def map_map
proof (rule map_cong[OF refl])
  fix x assume x: "x \<in> set perm"
  obtain c ps where cp: "x = (c, ps)" by (cases x)
  from assms x cp have d: "\<forall>p\<in>set ps. mda_denominator scoring p \<noteq> 0" by auto
  show "((\<lambda>(col, perm).
            let imp = map2 (mda_ratio scoring) (map Fin bs) perm
            in (col, pd_mean imp, fmul (pd_std imp) (Fin (sqrt (real (length (map Fin bs))))))) \<circ>
         (\<lambda>(c, ps). (c, map Fin ps))) x =
        (case x of (c, ps) \<Rightarrow> (c, sample_mean (map2 (mda_ratio_r scoring) bs ps),
                      fmul (sample_std (map2 (mda_ratio_r scoring) bs ps)) (Fin (sqrt (real (length bs))))))"
    unfolding cp comp_def prod.case by (rule mda_row_Fin[OF d])
qed

lemma feat_imp_MDA_of_finite_tables:
  assumes "scoring \<in> set [''neg_log_loss'', ''accuracy'']"
      and "mda_folds e clf aX y sample_weight scoring
             (zip [0..<n_splits] (split e (PurgedKFold n_splits t1 pct_embargo) (heap s aX)))
             (replicate n_splits NaN, map (\<lambda>c. (c, replicate n_splits NaN)) (columns (heap s aX))) s
           = (Inr (map Fin bs, map (\<lambda>(c, ps). (c, map Fin ps)) perm), s')"
      and "\<forall>(c, ps)\<in>set perm. \<forall>p\<in>set ps. mda_denominator scoring p \<noteq> 0"
  shows "feat_imp_MDA e clf aX y n_splits t1 sample_weight pct_embargo scoring s =
     (Inr (map (\<lambda>(c, ps). (c, sample_mean (map2 (mda_ratio_r scoring) bs ps),
                            fmul (sample_std (map2 (mda_ratio_r scoring) bs ps))
                                 (Fin (sqrt (real (length bs))))))
               perm,
           sample_mean bs), s')"
  using assms(1) unfolding feat_imp_MDA_def Let_def assms(2)
  by (simp add: mda_report_Fin[OF assms(3)] pd_mean_map_Fin)

lemmas mda_eval = mda_fold_def mda_col_def fold_score_def shuffle_column_def loc_set_def alloc_def
  add_log_def iloc_def take_idx_def take_idx_opt_def columns_def get_column_def set_column_def
  Let_def upt_rec[of 0] upt_rec[of 1] upt_rec[of 2]

lemma ex_mda_folds:
  "\<exists>s'. mda_folds ex_env ex_clf 0 [1, 0, 1, 0] None ''neg_log_loss''
             (zip [0..<2] (split ex_env (PurgedKFold 2 [] 0) (heap ex_state 0)))
             (replicate 2 NaN, map (\<lambda>c. (c, replicate 2 NaN)) (columns (heap ex_state 0))) ex_state
           = (Inr (map Fin [- 1, - 1],
                   map (\<lambda>(c, ps). (c, map Fin ps)) [(''a'', [- 3, - 3]), (''b'', [- 1, - 1])]), s')"
  by (simp add: mda_eval ex_defs eval_nat_numeral)

lemma ex_mda_folds_acc:
  "\<exists>s'. mda_folds ex_env ex_clf 0 [0, 1, 0, 1] None ''accuracy''
             (zip [0..<2] (split ex_env (PurgedKFold 2 [] 0) (heap ex_state 0)))
             (replicate 2 NaN, map (\<lambda>c. (c, replicate 2 NaN)) (columns (heap ex_state 0))) ex_state
           = (Inr (map Fin [0, 0],
                   map (\<lambda>(c, ps). (c, map Fin ps)) [(''a'', [1, 1]), (''b'', [0, 0])]), s')"
  by (simp add: mda_eval ex_defs eval_nat_numeral)

section \<open>Mean decrease accuracy: the store\<close>

lemma frames_kept_refl: "frames_kept s s"
  by (simp add: frames_kept_def)

lemma frames_kept_trans: "frames_kept s s' \<Longrightarrow> frames_kept s' s'' \<Longrightarrow> frames_kept s s''"
  by (auto simp: frames_kept_def)

lemma frames_kept_add_log: "frames_kept s (add_log evs s)"
  by (simp add: frames_kept_def add_log_def)

lemma frames_kept_alloc: "frames_kept s (snd (alloc X s))"
  by (simp add: frames_kept_def alloc_def)

lemma alloc_result:
  "fst (alloc X s) = nxt s" "nxt (snd (alloc X s)) = Suc (nxt s)" "heap (snd (alloc X s)) (nxt s) = X"
  by (simp_all add: alloc_def)

lemma shuffle_column_heap:
  "heap (shuffle_column e a col s) a' =
     (if a' = a then set_column col (fst (shuffle e (rng s) (get_column (heap s a) col))) (heap s a)
      else heap s a')"
  "nxt (shuffle_column e a col s) = nxt s"
  by (simp_all add: shuffle_column_def Let_def split: prod.splits)

lemma mda_col_state:
  assumes "mda_col e scoring clf_fit aT y_test w_test idx col (tab, s) = (tab', s')"
  shows "nxt s' = Suc (nxt s)"
    and "\<forall>a<nxt s. heap s' a = heap s a"
    and "heap s' (nxt s) =
           set_column col (fst (shuffle e (rng s) (get_column (heap s aT) col))) (heap s aT)"
    and "tab' = loc_set tab idx col
            (Fin (fold_score e scoring clf_fit (heap s' (nxt s)) y_test w_test))"
  using assms
  by (auto simp: mda_col_def Let_def alloc_def shuffle_column_heap shuffle_column_def
           get_column_def split: prod.splits)

lemma frames_kept_mda_col:
  "frames_kept s (snd (mda_col e scoring clf_fit aT y_test w_test idx col (tab, s)))"
proof -
  obtain tab' s' where r: "mda_col e scoring clf_fit aT y_test w_test idx col (tab, s) = (tab', s')"
    by (cases "mda_col e scoring clf_fit aT y_test w_test idx col (tab, s)")
  from mda_col_state(1,2)[OF r] show ?thesis by (simp add: r frames_kept_def)
qed

lemma frames_kept_fold_mda_col:
  "frames_kept s (snd (fold (mda_col e scoring clf_fit aT y_test w_test idx) cols (tab, s)))"
proof (induction cols arbitrary: tab s)
  case Nil
  then show ?case by (simp add: frames_kept_refl)
next
  case (Cons col cols)
  obtain tab' s' where r: "mda_col e scoring clf_fit aT y_test w_test idx col (tab, s) = (tab', s')"
    by (cases "mda_col e scoring clf_fit aT y_test w_test idx col (tab, s)")
  have "frames_kept s s'" using frames_kept_mda_col[of s e scoring clf_fit aT y_test w_test idx col tab]
    by (simp add: r)
  moreover have "frames_kept s' (snd (fold (mda_col e scoring clf_fit aT y_test w_test idx) cols (tab', s')))"
    by (rule Cons.IH)
  ultimately show ?case by (simp add: r frames_kept_trans)
qed

lemma frames_kept_mda_fold:
  "frames_kept s (snd (mda_fold e clf aX y sample_weight scoring fld tabs s))"
proof -
  obtain idx train test where fld: "fld = (idx, train, test)" by (cases fld)
  obtain scores scores_perm where tabs: "tabs = (scores, scores_perm)" by (cases tabs)
  let ?al = "\<lambda>X. s\<lparr>heap := (heap s)(nxt s := X), nxt := Suc (nxt s)\<rparr>"
  have a: "frames_kept s (?al X)" for X
    using frames_kept_alloc[of s X] by (simp add: alloc_def)
  have b: "frames_kept s (add_log evs (?al X))" for X evs
    by (rule frames_kept_trans[OF a frames_kept_add_log])
  have c: "frames_kept s s'"
    if "fold (mda_col e scoring clf_fit aT y_test w_test idx) cols (tab, add_log evs (?al X)) = (tab', s')"
    for X evs clf_fit aT y_test w_test cols tab tab' s'
    using frames_kept_trans[OF b frames_kept_fold_mda_col[of "add_log evs (?al X)" e scoring clf_fit aT
          y_test w_test idx cols tab]] that by simp
  show ?thesis
    unfolding mda_fold_def fld tabs
    by (auto simp: Let_def alloc_def frames_kept_refl a b split: sum.splits prod.splits intro: c)
qed

lemma frames_kept_mda_folds:
  "frames_kept s (snd (mda_folds e clf aX y sample_weight scoring flds tabs s))"
proof (induction flds arbitrary: tabs s)
  case Nil
  then show ?case by (simp add: frames_kept_refl)
next
  case (Cons fld flds)
  obtain r s' where r: "mda_fold e clf aX y sample_weight scoring fld tabs s = (r, s')"
    by (cases "mda_fold e clf aX y sample_weight scoring fld tabs s")
  have k: "frames_kept s s'"
    using frames_kept_mda_fold[of s e clf aX y sample_weight scoring fld tabs] by (simp add: r)
  show ?case
  proof (cases r)
    case (Inl err)
    then show ?thesis using k by (simp add: r)
  next
    case (Inr tabs')
    have "frames_kept s' (snd (mda_folds e clf aX y sample_weight scoring flds tabs' s'))"
      by (rule Cons.IH)
    with k show ?thesis by (simp add: r Inr frames_kept_trans)
  qed
qed

lemma frames_kept_feat_imp_MDA:
  "frames_kept s (snd (feat_imp_MDA e clf aX y n_splits t1 sample_weight pct_embargo scoring s))"
proof (cases "scoring \<in> set [''neg_log_loss'', ''accuracy'']")
  case False
  then show ?thesis by (simp add: feat_imp_MDA_def frames_kept_refl)
next
  case True
  let ?r = "mda_folds e clf aX y sample_weight scoring
              (zip [0..<n_splits] (split e (PurgedKFold n_splits t1 pct_embargo) (heap s aX)))
              (replicate n_splits NaN, map (\<lambda>c. (c, replicate n_splits NaN)) (columns (heap s aX))) s"
  have "frames_kept s (snd ?r)" by (rule frames_kept_mda_folds)
  moreover have "snd (feat_imp_MDA e clf aX y n_splits t1 sample_weight pct_embargo scoring s) = snd ?r"
    using True by (auto simp: feat_imp_MDA_def Let_def split: prod.splits sum.splits)
  ultimately show ?thesis by simp
qed

lemma mda_fold_Inr:
  assumes "mda_fold e clf aX y sample_weight scoring (idx, train, test) (scores, scores_perm) s
             = (Inr (scores', scores_perm'), s')"
  shows "\<exists>X_train y_train w_train X_test y_test w_test clf_fit.
           iloc (heap s aX) train = Inr X_train \<and> take_idx y train = Inr y_train \<and>
           take_idx_opt sample_weight train = Inr w_train \<and>
           iloc (heap s aX) test = Inr X_test \<and> take_idx y test = Inr y_test \<and>
           take_idx_opt sample_weight test = Inr w_test \<and>
           fit e clf X_train y_train w_train = Inr clf_fit \<and>
           scores' = scores[idx := Fin (fold_score e scoring clf_fit X_test y_test w_test)] \<and>
           fold (mda_col e scoring clf_fit (nxt s) y_test w_test idx)
                (columns (heap (snd (alloc X_test s)) aX))
                (scores_perm, add_log [EvFit clf X_train y_train w_train] (snd (alloc X_test s)))
             = (scores_perm', s')"
proof (cases "aX = nxt s")
  case True
  with assms show ?thesis unfolding mda_fold_def
    by (simp add: Let_def alloc_def add_log_def split: sum.splits prod.splits)
next
  case False
  with assms show ?thesis unfolding mda_fold_def
    by (simp add: Let_def alloc_def add_log_def split: sum.splits prod.splits)
qed

lemma mda_fold_test_partition:
  assumes "mda_fold e clf aX y sample_weight scoring (idx, train, test) tabs s = (Inr tabs', s')"
  shows "iloc (heap s aX) test = Inr (heap s' (nxt s))"
proof -
  obtain scores scores_perm where tabs: "tabs = (scores, scores_perm)" by (cases tabs)
  obtain scores' scores_perm' where tabs': "tabs' = (scores', scores_perm')" by (cases tabs')
  from mda_fold_Inr[OF assms[unfolded tabs tabs']]
  obtain X_train y_train w_train X_test y_test w_test clf_fit where
    t: "iloc (heap s aX) test = Inr X_test" and
    f: "fold (mda_col e scoring clf_fit (nxt s) y_test w_test idx)
                (columns (heap (snd (alloc X_test s)) aX))
                (scores_perm, add_log [EvFit clf X_train y_train w_train] (snd (alloc X_test s)))
             = (scores_perm', s')"
    by blast
  let ?s2 = "add_log [EvFit clf X_train y_train w_train] (snd (alloc X_test s))"
  have "frames_kept ?s2 s'"
    using frames_kept_fold_mda_col[of ?s2 e scoring clf_fit "nxt s" y_test w_test idx
        "columns (heap (snd (alloc X_test s)) aX)" scores_perm] f by simp
  then have "heap s' (nxt s) = heap ?s2 (nxt s)"
    by (simp add: frames_kept_def add_log_def alloc_def)
  also have "\<dots> = X_test" by (simp add: add_log_def alloc_def)
  finally show ?thesis using t by simp
qed

text \<open>
  C5. \<open>feat_imp_MDA\<close> changes no frame that exists when it is called, so not the input
  matrix; neither does any single fold. The test partition a fold allocates is, when the
  fold ends, still the selection \<^verbatim>\<open>X.iloc[test]\<close>. Each pass of the loop over the
  features allocates one new frame, the copy of the test partition with the one column
  permuted and every other column as in the test partition, and changes no frame that
  existed before the pass: not the test partition, not the copy of another feature.
\<close>

theorem mda_permutes_fresh_copies:
  "frames_kept s (snd (feat_imp_MDA e clf aX y n_splits t1 sample_weight pct_embargo scoring s))
   \<and> frames_kept s (snd (mda_fold e clf aX y sample_weight scoring (idx, train, test) tabs s))
   \<and> (\<forall>tabs' s'. mda_fold e clf aX y sample_weight scoring (idx, train, test) tabs s = (Inr tabs', s')
         \<longrightarrow> iloc (heap s aX) test = Inr (heap s' (nxt s)))
   \<and> frames_kept s (snd (fold (mda_col e scoring clf_fit aT y_test w_test idx) cols (tab, s)))
   \<and> (\<forall>tab' s'. mda_col e scoring clf_fit aT y_test w_test idx col (tab, s) = (tab', s') \<longrightarrow>
         frames_kept s s' \<and> nxt s' = Suc (nxt s)
         \<and> heap s' (nxt s) =
             set_column col (fst (shuffle e (rng s) (get_column (heap s aT) col))) (heap s aT)
         \<and> (\<forall>c. c \<noteq> col \<longrightarrow> get_column (heap s' (nxt s)) c = get_column (heap s aT) c))"
proof -
  have other: "get_column (set_column col vs X) c = get_column X c" if "c \<noteq> col" for vs X c
    using that by (induction X) (auto simp: get_column_def set_column_def)
  have col: "frames_kept s s' \<and> nxt s' = Suc (nxt s)
         \<and> heap s' (nxt s) =
             set_column col (fst (shuffle e (rng s) (get_column (heap s aT) col))) (heap s aT)
         \<and> (\<forall>c. c \<noteq> col \<longrightarrow> get_column (heap s' (nxt s)) c = get_column (heap s aT) c)"
    if r: "mda_col e scoring clf_fit aT y_test w_test idx col (tab, s) = (tab', s')" for tab' s'
    using mda_col_state(1,2,3)[OF r] by (simp add: frames_kept_def other)
  show ?thesis
    using frames_kept_feat_imp_MDA[of s e clf aX y n_splits t1 sample_weight pct_embargo scoring]
      frames_kept_mda_fold[of s e clf aX y sample_weight scoring "(idx, train, test)" tabs]
      frames_kept_fold_mda_col[of s e scoring clf_fit aT y_test w_test idx cols tab]
      mda_fold_test_partition[of e clf aX y sample_weight scoring idx train test tabs s]
      col
    by blast
qed

theorem mda_permutes_fresh_copies_witness:
  "frames_kept ex_state
     (snd (feat_imp_MDA ex_env ex_clf 0 [1, 0, 1, 0] 2 [] None 0 ''accuracy'' ex_state))
   \<and> heap (snd (feat_imp_MDA ex_env ex_clf 0 [1, 0, 1, 0] 2 [] None 0 ''accuracy'' ex_state)) 0 = ex_X
   \<and> heap (snd (mda_col ex_env ''accuracy'' ex_fitted 0 [1, 0, 1, 0] None 0 ''a'' ([], ex_state))) 1
       = [(''a'', [- 1, 1, - 1, 1]), (''b'', [2, 3, 5, 7])]
   \<and> heap (snd (mda_col ex_env ''accuracy'' ex_fitted 0 [1, 0, 1, 0] None 0 ''a'' ([], ex_state))) 0
       = ex_X"
proof -
  let ?r = "mda_col ex_env ''accuracy'' ex_fitted 0 [1, 0, 1, 0] None 0 ''a'' ([], ex_state)"
  note t = mda_permutes_fresh_copies[of ex_state ex_env ex_clf 0 "[1, 0, 1, 0]" 2 "[]" None 0
      "''accuracy''" 0 "[]" "[]" "([], [])" ex_fitted 0 "[1, 0, 1, 0]" None "[]" "[]" "''a''"]
  from t have k: "frames_kept ex_state
     (snd (feat_imp_MDA ex_env ex_clf 0 [1, 0, 1, 0] 2 [] None 0 ''accuracy'' ex_state))"
    by blast
  then have x: "heap (snd (feat_imp_MDA ex_env ex_clf 0 [1, 0, 1, 0] 2 [] None 0 ''accuracy'' ex_state)) 0
      = ex_X"
    by (simp add: frames_kept_def ex_state_def)
  from t have "frames_kept ex_state (snd ?r) \<and>
      heap (snd ?r) (nxt ex_state) =
        set_column ''a'' (fst (shuffle ex_env (rng ex_state) (get_column (heap ex_state 0) ''a'')))
          (heap ex_state 0)"
    by (metis prod.collapse)
  then have c: "heap (snd ?r) 1 = [(''a'', [- 1, 1, - 1, 1]), (''b'', [2, 3, 5, 7])]"
    and d: "heap (snd ?r) 0 = ex_X"
    by (simp_all add: frames_kept_def ex_state_def ex_env_def ex_X_def get_column_def set_column_def)
  from k x c d show ?thesis by blast
qed

section \<open>Mean decrease accuracy: the score tables\<close>

lemma shape_loc_set: "shape (loc_set tab idx col v) = shape tab"
  by (induction tab) (auto simp: shape_def loc_set_def)

lemma shape_fold_mda_col:
  "shape (fst (fold (mda_col e scoring clf_fit aT y_test w_test idx) cols (tab, s))) = shape tab"
proof (induction cols arbitrary: tab s)
  case Nil then show ?case by simp
next
  case (Cons col cols)
  obtain tab' s' where r: "mda_col e scoring clf_fit aT y_test w_test idx col (tab, s) = (tab', s')"
    by (cases "mda_col e scoring clf_fit aT y_test w_test idx col (tab, s)")
  from mda_col_state(4)[OF r] have "shape tab' = shape tab" by (simp add: shape_loc_set)
  with Cons.IH[of tab' s'] show ?case by (simp add: r)
qed

lemma mda_fold_shape:
  assumes "mda_fold e clf aX y sample_weight scoring fld (scores, scores_perm) s
             = (Inr (scores', scores_perm'), s')"
  shows "length scores' = length scores \<and> shape scores_perm' = shape scores_perm"
proof -
  obtain idx train test where fld: "fld = (idx, train, test)" by (cases fld)
  have c: "shape tab' = shape tab"
    if "fold (mda_col e scoring clf_fit aT y_test w_test idx) cols (tab, s0) = (tab', s1)"
    for clf_fit aT y_test w_test cols tab tab' s0 s1
    using shape_fold_mda_col[of e scoring clf_fit aT y_test w_test idx cols tab s0] that by simp
  show ?thesis
    using assms unfolding mda_fold_def fld
    by (auto simp: Let_def split: sum.splits prod.splits dest: c)
qed

lemma mda_folds_shape:
  "mda_folds e clf aX y sample_weight scoring flds (scores, scores_perm) s
      = (Inr (scores', scores_perm'), s')
   \<Longrightarrow> length scores' = length scores \<and> shape scores_perm' = shape scores_perm"
proof (induction flds arbitrary: scores scores_perm s)
  case Nil then show ?case by simp
next
  case (Cons fld flds)
  obtain r s1 where r: "mda_fold e clf aX y sample_weight scoring fld (scores, scores_perm) s = (r, s1)"
    by (cases "mda_fold e clf aX y sample_weight scoring fld (scores, scores_perm) s")
  show ?case
  proof (cases r)
    case (Inl err)
    with Cons.prems r show ?thesis by simp
  next
    case (Inr tabs1)
    obtain sc1 sp1 where t: "tabs1 = (sc1, sp1)" by (cases tabs1)
    from r Inr t have "length sc1 = length scores \<and> shape sp1 = shape scores_perm"
      by (intro mda_fold_shape) simp
    moreover from Cons.prems r Inr t
    have "length scores' = length sc1 \<and> shape scores_perm' = shape sp1"
      by (intro Cons.IH) simp
    ultimately show ?thesis by simp
  qed
qed

lemma shape_finite_table:
  assumes "shape (map (\<lambda>(c, ps). (c, map Fin ps)) perm) = shape (map (\<lambda>c. (c, replicate n NaN)) cols)"
  shows "map fst perm = cols \<and> (\<forall>(c, ps)\<in>set perm. length ps = n)"
proof -
  have "map (\<lambda>(c, ps). (c, length ps)) perm = map (\<lambda>c. (c, n)) cols"
    using assms by (simp add: shape_def comp_def case_prod_unfold)
  then have a: "map fst (map (\<lambda>(c, ps). (c, length ps)) perm) = map fst (map (\<lambda>c. (c, n)) cols)"
    and b: "map snd (map (\<lambda>(c, ps). (c, length ps)) perm) = map snd (map (\<lambda>c. (c, n)) cols)"
    by simp_all
  from a have "map fst perm = cols" by (simp add: comp_def case_prod_unfold)
  moreover from b have "map (\<lambda>x. length (snd x)) perm = map (\<lambda>c. n) cols"
    by (simp add: comp_def case_prod_unfold)
  then have "set (map (\<lambda>x. length (snd x)) perm) \<subseteq> {n}"
    by (simp only:) auto
  then have "\<forall>x\<in>set perm. length (snd x) = n" by auto
  ultimately show ?thesis by auto
qed

lemma mda_tables_shape:
  assumes "mda_folds e clf aX y sample_weight scoring flds
             (replicate n_splits NaN, map (\<lambda>c. (c, replicate n_splits NaN)) cols) s
           = (Inr (map Fin bs, map (\<lambda>(c, ps). (c, map Fin ps)) perm), s')"
  shows "length bs = n_splits \<and> map fst perm = cols \<and> (\<forall>(c, ps)\<in>set perm. length ps = n_splits)"
proof -
  from mda_folds_shape[OF assms]
  have l: "length (map Fin bs) = length (replicate n_splits NaN)"
    and sh: "shape (map (\<lambda>(c, ps). (c, map Fin ps)) perm)
             = shape (map (\<lambda>c. (c, replicate n_splits NaN)) cols)"
    by simp_all
  from l shape_finite_table[OF sh] show ?thesis by simp
qed

text \<open>
  The loop fills the tables: when the splitter yields at least \<open>n_splits\<close> folds and no
  call raises, every cell of the two score tables is a finite score.
\<close>

lemma col_fin_loc_set:
  assumes "col_fin tab i C"
  shows "col_fin (loc_set tab idx col (Fin v)) i C"
proof -
  have "is_fin (vs[idx := Fin v] ! i)" if "is_fin (vs ! i)" for vs :: "fval list"
    using that by (cases "idx < length vs") (simp_all add: nth_list_update list_update_beyond)
  then have "is_fin (vs' ! i)"
    if mem: "(c, vs) \<in> set tab" and eq: "(if c = col then (c, vs[idx := Fin v]) else (c, vs)) = (c', vs')"
      and c': "c' \<in> C" for c vs c' vs'
  proof -
    from eq have "c' = c" by (auto split: if_splits)
    with assms mem c' have "is_fin (vs ! i)" by (auto simp: col_fin_def)
    with eq \<open>\<And>vs. is_fin (vs ! i) \<Longrightarrow> is_fin (vs[idx := Fin v] ! i)\<close> show ?thesis
      by (auto split: if_splits)
  qed
  then show ?thesis unfolding col_fin_def loc_set_def by (auto split: prod.splits)
qed

lemma col_fin_loc_set_insert:
  assumes "\<forall>(c, n)\<in>set (shape tab). idx < n" and "col_fin tab idx C"
  shows "col_fin (loc_set tab idx col (Fin v)) idx (insert col C)"
proof -
  have "is_fin (vs' ! idx)"
    if mem: "(c, vs) \<in> set tab" and eq: "(if c = col then (c, vs[idx := Fin v]) else (c, vs)) = (c', vs')"
      and c': "c' \<in> insert col C" for c vs c' vs'
  proof (cases "c = col")
    case True
    from assms(1) mem have "idx < length vs" by (force simp: shape_def)
    with True eq show ?thesis by auto
  next
    case False
    with eq c' have "c \<in> C" "vs' = vs" by auto
    with assms(2) mem show ?thesis by (auto simp: col_fin_def)
  qed
  then show ?thesis unfolding col_fin_def loc_set_def by (auto split: prod.splits)
qed

lemma col_fin_fold_mda_col:
  assumes "col_fin tab i C"
  shows "col_fin (fst (fold (mda_col e scoring clf_fit aT y_test w_test idx) cols (tab, s))) i C"
  using assms
proof (induction cols arbitrary: tab s)
  case Nil then show ?case by simp
next
  case (Cons col cols)
  obtain tab' s' where r: "mda_col e scoring clf_fit aT y_test w_test idx col (tab, s) = (tab', s')"
    by (cases "mda_col e scoring clf_fit aT y_test w_test idx col (tab, s)")
  from mda_col_state(4)[OF r] Cons.prems have "col_fin tab' i C" by (simp add: col_fin_loc_set)
  from Cons.IH[OF this, of s'] show ?case by (simp add: r)
qed

lemma col_fin_fold_mda_col_fill:
  assumes "\<forall>(c, n)\<in>set (shape tab). idx < n" and "col_fin tab idx C"
  shows "col_fin (fst (fold (mda_col e scoring clf_fit aT y_test w_test idx) cols (tab, s))) idx
           (C \<union> set cols)"
  using assms
proof (induction cols arbitrary: tab s C)
  case Nil then show ?case by simp
next
  case (Cons col cols)
  obtain tab' s' where r: "mda_col e scoring clf_fit aT y_test w_test idx col (tab, s) = (tab', s')"
    by (cases "mda_col e scoring clf_fit aT y_test w_test idx col (tab, s)")
  note t = mda_col_state(4)[OF r]
  from t have sh: "shape tab' = shape tab" by (simp add: shape_loc_set)
  from t Cons.prems have "col_fin tab' idx (insert col C)" by (simp add: col_fin_loc_set_insert)
  from Cons.IH[OF _ this, of s'] Cons.prems(1) sh show ?case by (simp add: r)
qed

lemma mda_fold_fills:
  assumes ok: "mda_fold e clf aX y sample_weight scoring (idx, train, test) (scores, scores_perm) s
                 = (Inr (scores', scores_perm'), s')"
      and aX: "aX < nxt s"
      and names: "map fst scores_perm = columns (heap s aX)"
      and len: "idx < length scores" "\<forall>(c, n)\<in>set (shape scores_perm). idx < n"
  shows "is_fin (scores' ! idx) \<and> col_fin scores_perm' idx UNIV
       \<and> (\<forall>i. is_fin (scores ! i) \<longrightarrow> is_fin (scores' ! i))
       \<and> (\<forall>i. col_fin scores_perm i UNIV \<longrightarrow> col_fin scores_perm' i UNIV)"
proof -
  from mda_fold_Inr[OF ok]
  obtain X_train y_train w_train X_test y_test w_test clf_fit where
    sc: "scores' = scores[idx := Fin (fold_score e scoring clf_fit X_test y_test w_test)]" and
    f: "fold (mda_col e scoring clf_fit (nxt s) y_test w_test idx)
                (columns (heap (snd (alloc X_test s)) aX))
                (scores_perm, add_log [EvFit clf X_train y_train w_train] (snd (alloc X_test s)))
             = (scores_perm', s')"
    by blast
  have cols: "columns (heap (snd (alloc X_test s)) aX) = columns (heap s aX)"
    using aX by (simp add: alloc_def)
  have a: "is_fin (scores' ! idx)" using sc len(1) by simp
  have b: "is_fin (scores' ! i)" if "is_fin (scores ! i)" for i
    using that sc by (cases "idx < length scores") (simp_all add: nth_list_update list_update_beyond)
  have "col_fin scores_perm idx {}" by (simp add: col_fin_def)
  from col_fin_fold_mda_col_fill[OF len(2) this, of e scoring clf_fit "nxt s" y_test w_test
      "columns (heap (snd (alloc X_test s)) aX)"
      "add_log [EvFit clf X_train y_train w_train] (snd (alloc X_test s))"]
  have "col_fin scores_perm' idx (set (columns (heap s aX)))" by (simp add: f[unfolded cols] cols)
  moreover have "map fst scores_perm' = map fst scores_perm"
  proof -
    have "shape scores_perm' = shape scores_perm"
      using shape_fold_mda_col[of e scoring clf_fit "nxt s" y_test w_test idx
          "columns (heap (snd (alloc X_test s)) aX)" scores_perm
          "add_log [EvFit clf X_train y_train w_train] (snd (alloc X_test s))"] by (simp add: f)
    then have "map fst (shape scores_perm') = map fst (shape scores_perm)" by simp
    then show ?thesis by (simp add: shape_def comp_def case_prod_unfold)
  qed
  ultimately have c: "col_fin scores_perm' idx UNIV"
  proof -
    assume fin: "col_fin scores_perm' idx (set (columns (heap s aX)))"
      and nm: "map fst scores_perm' = map fst scores_perm"
    have "fst x \<in> set (columns (heap s aX))" if "x \<in> set scores_perm'" for x
    proof -
      from that have "fst x \<in> set (map fst scores_perm')" by simp
      then show ?thesis by (simp only: nm names)
    qed
    with fin show ?thesis unfolding col_fin_def by fastforce
  qed
  have d: "col_fin scores_perm' i UNIV" if "col_fin scores_perm i UNIV" for i
    using col_fin_fold_mda_col[OF that, of e scoring clf_fit "nxt s" y_test w_test idx
        "columns (heap (snd (alloc X_test s)) aX)"
        "add_log [EvFit clf X_train y_train w_train] (snd (alloc X_test s))"] by (simp add: f)
  from a b c d show ?thesis by blast
qed

lemma names_of_shape: "shape tab' = shape tab \<Longrightarrow> map fst tab' = map fst tab"
proof -
  assume "shape tab' = shape tab"
  then have "map fst (shape tab') = map fst (shape tab)" by simp
  then show ?thesis by (simp add: shape_def comp_def case_prod_unfold)
qed

lemma mda_folds_fills:
  assumes "mda_folds e clf aX y sample_weight scoring (zip [k..<n] folds) (scores, scores_perm) s
             = (Inr (scores', scores_perm'), s')"
      and "aX < nxt s"
      and "map fst scores_perm = columns (heap s aX)"
      and "length scores = n"
      and "\<forall>(c, m)\<in>set (shape scores_perm). m = n"
      and "n - k \<le> length folds"
      and "\<forall>i<k. is_fin (scores ! i) \<and> col_fin scores_perm i UNIV"
  shows "\<forall>i<n. is_fin (scores' ! i) \<and> col_fin scores_perm' i UNIV"
  using assms
proof (induction folds arbitrary: k scores scores_perm s)
  case Nil
  then show ?case by simp
next
  case (Cons fld folds)
  show ?case
  proof (cases "k < n")
    case False
    with Cons.prems show ?thesis by simp
  next
    case True
    obtain train test where fld: "fld = (train, test)" by (cases fld)
    from True have z: "zip [k..<n] (fld # folds) = (k, train, test) # zip [Suc k..<n] folds"
      by (simp add: upt_conv_Cons fld)
    obtain r s1 where r: "mda_fold e clf aX y sample_weight scoring (k, train, test)
                            (scores, scores_perm) s = (r, s1)"
      by (cases "mda_fold e clf aX y sample_weight scoring (k, train, test) (scores, scores_perm) s")
    show ?thesis
    proof (cases r)
      case (Inl err)
      with Cons.prems(1) r z show ?thesis by simp
    next
      case (Inr tabs1)
      obtain sc1 sp1 where t: "tabs1 = (sc1, sp1)" by (cases tabs1)
      have ok: "mda_fold e clf aX y sample_weight scoring (k, train, test) (scores, scores_perm) s
                  = (Inr (sc1, sp1), s1)" using r Inr t by simp
      have rest: "mda_folds e clf aX y sample_weight scoring (zip [Suc k..<n] folds) (sc1, sp1) s1
                    = (Inr (scores', scores_perm'), s')"
        using Cons.prems(1) z ok by simp
      from Cons.prems(4,5) True have len: "k < length scores" "\<forall>(c, m)\<in>set (shape scores_perm). k < m"
        by auto
      note fills = mda_fold_fills[OF ok Cons.prems(2,3) len]
      note sh = mda_fold_shape[OF ok]
      have kept: "frames_kept s s1"
        using frames_kept_mda_fold[of s e clf aX y sample_weight scoring "(k, train, test)"
            "(scores, scores_perm)"] by (simp add: r)
      with Cons.prems(2) have aX1: "aX < nxt s1" and h: "heap s1 aX = heap s aX"
        by (auto simp: frames_kept_def)
      have names1: "map fst sp1 = columns (heap s1 aX)"
        using names_of_shape[of sp1 scores_perm] sh Cons.prems(3) h by simp
      have inv: "\<forall>i<Suc k. is_fin (sc1 ! i) \<and> col_fin sp1 i UNIV"
        using fills Cons.prems(7) by (auto simp: less_Suc_eq)
      show ?thesis
      proof (rule Cons.IH[OF rest aX1 names1 _ _ _ inv])
        show "length sc1 = n" using sh Cons.prems(4) by simp
        show "\<forall>(c, m)\<in>set (shape sp1). m = n" using sh Cons.prems(5) by simp
        show "n - Suc k \<le> length folds" using Cons.prems(6) by simp
      qed
    qed
  qed
qed

lemma fin_list: "\<forall>i<length xs. is_fin (xs ! i) \<Longrightarrow> map Fin (map val0 xs) = xs"
proof -
  assume a: "\<forall>i<length xs. is_fin (xs ! i)"
  have "Fin (val0 x) = x" if "x \<in> set xs" for x
  proof -
    from that a have "is_fin x" by (auto simp: in_set_conv_nth)
    then show ?thesis by (cases x) simp_all
  qed
  then show ?thesis by (simp add: map_idI)
qed

lemma mda_tables_finite:
  assumes ok: "mda_folds e clf aX y sample_weight scoring (zip [0..<n_splits] folds)
             (replicate n_splits NaN, map (\<lambda>c. (c, replicate n_splits NaN)) (columns (heap s aX))) s
           = (Inr (scores', scores_perm'), s')"
      and aX: "aX < nxt s"
      and enough: "n_splits \<le> length folds"
  shows "\<exists>bs perm. scores' = map Fin bs \<and> scores_perm' = map (\<lambda>(c, ps). (c, map Fin ps)) perm"
proof -
  let ?tab = "map (\<lambda>c. (c, replicate n_splits NaN)) (columns (heap s aX))"
  have fills: "\<forall>i<n_splits. is_fin (scores' ! i) \<and> col_fin scores_perm' i UNIV"
    by (rule mda_folds_fills[OF ok aX]) (use enough in \<open>auto simp: shape_def comp_def\<close>)
  from mda_folds_shape[OF ok] have l: "length scores' = n_splits"
    and sh: "shape scores_perm' = shape ?tab" by simp_all
  from fills l have "map Fin (map val0 scores') = scores'" by (intro fin_list) simp
  moreover have "map (\<lambda>(c, ps). (c, map Fin ps)) (map (\<lambda>(c, vs). (c, map val0 vs)) scores_perm')
      = scores_perm'"
  proof -
    have "(c, map Fin (map val0 vs)) = (c, vs)" if mem: "(c, vs) \<in> set scores_perm'" for c vs
    proof -
      from mem have "(c, length vs) \<in> set (shape scores_perm')" by (force simp: shape_def)
      then have "length vs = n_splits" unfolding sh by (auto simp: shape_def)
      moreover from fills mem have "\<forall>i<n_splits. is_fin (vs ! i)" by (auto simp: col_fin_def)
      ultimately have "map Fin (map val0 vs) = vs" by (intro fin_list) simp
      then show ?thesis by (simp only:)
    qed
    then show ?thesis by (auto simp: map_idI comp_def case_prod_unfold intro!: map_idI)
  qed
  ultimately show ?thesis by metis
qed

lemma reals_of_Fin: "reals_of (map (\<lambda>(c, ps). (c, map Fin ps)) perm) = perm"
  by (induction perm) (auto simp: reals_of_def comp_def)



lemma is_fin_fadd: "is_fin (fadd x y) \<longleftrightarrow> is_fin x \<and> is_fin y"
  by (cases x; cases y) simp_all

lemma is_fin_fsum: "is_fin (fsum xs) \<longleftrightarrow> (\<forall>x\<in>set xs. is_fin x)"
  by (induction xs) (simp_all add: fsum_Nil fsum_Cons is_fin_fadd)

lemma not_fin_fdiv: "\<not> is_fin x \<Longrightarrow> \<not> is_fin (fdiv x (Fin n))"
  by (cases x) simp_all

lemma pd_mean_not_fin:
  assumes "x \<in> set xs" "x = PInf \<or> x = NInf"
  shows "\<not> is_fin (pd_mean xs)"
proof -
  from assms have mem: "x \<in> set (filter notna xs)" by (auto simp: notna_def)
  then have ne: "length (filter notna xs) \<noteq> 0" by (cases "filter notna xs") auto
  from mem assms(2) have "\<not> is_fin (fsum (filter notna xs))"
    unfolding is_fin_fsum by auto
  then show ?thesis using ne by (simp add: pd_mean_def Let_def not_fin_fdiv)
qed

lemma sample_mean_fin: "xs \<noteq> [] \<Longrightarrow> is_fin (sample_mean xs)"
  by (simp add: sample_mean_def)

lemma sample_std_fin: "2 \<le> length xs \<Longrightarrow> is_fin (sample_std xs)"
  by (simp add: sample_std_def)

lemma mda_finiteness_of_finite_tables:
  assumes "scoring \<in> set [''neg_log_loss'', ''accuracy'']"
      and "mda_folds e clf aX y sample_weight scoring
             (zip [0..<n_splits] (split e (PurgedKFold n_splits t1 pct_embargo) (heap s aX)))
             (replicate n_splits NaN, map (\<lambda>c. (c, replicate n_splits NaN)) (columns (heap s aX))) s
           = (Inr (map Fin bs, map (\<lambda>(c, ps). (c, map Fin ps)) perm), s')"
  shows "(\<forall>b p. is_fin (mda_ratio scoring (Fin b) (Fin p)) = (mda_denominator scoring p \<noteq> 0))
     \<and> (1 \<le> n_splits \<longrightarrow> (\<forall>(c, ps)\<in>set perm. \<forall>p\<in>set ps. mda_denominator scoring p \<noteq> 0) \<longrightarrow>
          (\<exists>imp oos. feat_imp_MDA e clf aX y n_splits t1 sample_weight pct_embargo scoring s
                        = (Inr (imp, oos), s')
             \<and> is_fin oos
             \<and> (\<forall>row\<in>set imp. is_fin (fst (snd row)) \<and> (2 \<le> n_splits \<longrightarrow> is_fin (snd (snd row))))))
     \<and> (\<forall>c ps i. (c, ps) \<in> set perm \<longrightarrow> i < n_splits \<longrightarrow> mda_denominator scoring (ps ! i) = 0 \<longrightarrow>
          bs ! i \<noteq> ps ! i \<longrightarrow>
          (\<exists>imp oos. feat_imp_MDA e clf aX y n_splits t1 sample_weight pct_embargo scoring s
                        = (Inr (imp, oos), s')
             \<and> (\<exists>row\<in>set imp. fst row = c \<and> \<not> is_fin (fst (snd row)))))"
proof -
  note sh = mda_tables_shape[OF assms(2)]
  have iff: "\<forall>b p. is_fin (mda_ratio scoring (Fin b) (Fin p)) = (mda_denominator scoring p \<noteq> 0)"
    by (simp add: mda_ratio_Fin)
  have suff: "\<exists>imp oos. feat_imp_MDA e clf aX y n_splits t1 sample_weight pct_embargo scoring s
                        = (Inr (imp, oos), s')
             \<and> is_fin oos
             \<and> (\<forall>row\<in>set imp. is_fin (fst (snd row)) \<and> (2 \<le> n_splits \<longrightarrow> is_fin (snd (snd row))))"
    if n: "1 \<le> n_splits" and d: "\<forall>(c, ps)\<in>set perm. \<forall>p\<in>set ps. mda_denominator scoring p \<noteq> 0"
  proof -
    from sh n have ne: "bs \<noteq> []" by auto
    have row: "is_fin (sample_mean (map2 (mda_ratio_r scoring) bs ps))
        \<and> (2 \<le> n_splits \<longrightarrow> is_fin (fmul (sample_std (map2 (mda_ratio_r scoring) bs ps))
                                 (Fin (sqrt (real (length bs))))))"
      if "(c, ps) \<in> set perm" for c ps
    proof -
      from sh that have l: "length (map2 (mda_ratio_r scoring) bs ps) = n_splits" by auto
      with n have "map2 (mda_ratio_r scoring) bs ps \<noteq> []" by auto
      then have "is_fin (sample_mean (map2 (mda_ratio_r scoring) bs ps))" by (rule sample_mean_fin)
      moreover have "is_fin (fmul (sample_std (map2 (mda_ratio_r scoring) bs ps))
                                 (Fin (sqrt (real (length bs)))))" if "2 \<le> n_splits"
        using that l unfolding sample_std_def by (simp del: length_map length_zip)
      ultimately show ?thesis by simp
    qed
    show ?thesis
      unfolding feat_imp_MDA_of_finite_tables[OF assms d]
      using row ne by (auto simp: sample_mean_fin)
  qed
  have nec: "\<exists>imp oos. feat_imp_MDA e clf aX y n_splits t1 sample_weight pct_embargo scoring s
                        = (Inr (imp, oos), s')
             \<and> (\<exists>row\<in>set imp. fst row = c \<and> \<not> is_fin (fst (snd row)))"
    if mem: "(c, ps) \<in> set perm" and i: "i < n_splits"
      and z: "mda_denominator scoring (ps ! i) = 0" and nz: "bs ! i \<noteq> ps ! i" for c ps i
  proof -
    from sh mem have len: "length ps = n_splits" "length bs = n_splits" by auto
    let ?imp = "map2 (mda_ratio scoring) (map Fin bs) (map Fin ps)"
    have "?imp ! i = mda_ratio scoring (Fin (bs ! i)) (Fin (ps ! i))"
      using i len by simp
    then have v: "?imp ! i = PInf \<or> ?imp ! i = NInf"
      using z nz by (simp add: mda_ratio_Fin)
    have "?imp ! i \<in> set ?imp" using i len by (intro nth_mem) simp
    from pd_mean_not_fin[OF this v] have nf: "\<not> is_fin (pd_mean ?imp)" .
    have "(c, pd_mean ?imp, fmul (pd_std ?imp) (Fin (sqrt (real (length (map Fin bs))))))
            \<in> set (mda_report scoring (map Fin bs) (map (\<lambda>(c, ps). (c, map Fin ps)) perm))"
      unfolding mda_report_def using mem by (force simp: Let_def image_iff)
    with nf show ?thesis
      using assms(1) unfolding feat_imp_MDA_def Let_def assms(2) by (simp, force)
  qed
  from iff suff nec show ?thesis by blast
qed

lemma mda_ratio_NaN:
  "(mda_ratio scoring (Fin b) (Fin p) = NaN) = (mda_denominator scoring p = 0 \<and> b = p)"
  by (simp add: mda_ratio_Fin)

text \<open>
  C9 (as amended). The denominator is not guarded: a ratio is finite exactly when its
  denominator is not zero (so never for a permuted accuracy of 1 or a permuted negated
  log-loss of 0), and it is the missing value exactly when denominator and improvement
  are both zero. When no denominator is zero, every reported mean and the returned
  score are finite, and so is every reported deviation from two folds on. A zero
  denominator under a nonzero improvement makes the reported mean of that feature
  infinite or missing.
\<close>

theorem mda_finite_only_with_nonzero_denominators:
  assumes "scoring \<in> set [''neg_log_loss'', ''accuracy'']"
      and "aX < nxt s"
      and "n_splits \<le> length (split e (PurgedKFold n_splits t1 pct_embargo) (heap s aX))"
      and "mda_folds e clf aX y sample_weight scoring
             (zip [0..<n_splits] (split e (PurgedKFold n_splits t1 pct_embargo) (heap s aX)))
             (replicate n_splits NaN, map (\<lambda>c. (c, replicate n_splits NaN)) (columns (heap s aX))) s
           = (Inr (scores, scores_perm), s')"
  shows "(\<forall>b p. is_fin (mda_ratio scoring (Fin b) (Fin p)) = (mda_denominator scoring p \<noteq> 0))
     \<and> (\<forall>b p. (mda_ratio scoring (Fin b) (Fin p) = NaN) = (mda_denominator scoring p = 0 \<and> b = p))
     \<and> (1 \<le> n_splits \<longrightarrow>
          (\<forall>(c, ps)\<in>set (reals_of scores_perm). \<forall>p\<in>set ps. mda_denominator scoring p \<noteq> 0) \<longrightarrow>
          (\<exists>imp oos. feat_imp_MDA e clf aX y n_splits t1 sample_weight pct_embargo scoring s
                        = (Inr (imp, oos), s')
             \<and> is_fin oos
             \<and> (\<forall>row\<in>set imp. is_fin (fst (snd row)) \<and> (2 \<le> n_splits \<longrightarrow> is_fin (snd (snd row))))))
     \<and> (\<forall>c ps i. (c, ps) \<in> set (reals_of scores_perm) \<longrightarrow> i < n_splits \<longrightarrow>
          mda_denominator scoring (ps ! i) = 0 \<longrightarrow> map val0 scores ! i \<noteq> ps ! i \<longrightarrow>
          (\<exists>imp oos. feat_imp_MDA e clf aX y n_splits t1 sample_weight pct_embargo scoring s
                        = (Inr (imp, oos), s')
             \<and> (\<exists>row\<in>set imp. fst row = c \<and> \<not> is_fin (fst (snd row)))))"
proof -
  from mda_tables_finite[OF assms(4,2,3)] obtain bs perm where
    t: "scores = map Fin bs" "scores_perm = map (\<lambda>(c, ps). (c, map Fin ps)) perm" by blast
  have bs: "map val0 scores = bs" by (simp add: t comp_def)
  have perm: "reals_of scores_perm = perm" by (simp add: t reals_of_Fin)
  note old = mda_finiteness_of_finite_tables[OF assms(1) assms(4)[unfolded t]]
  have nan: "\<forall>b p. (mda_ratio scoring (Fin b) (Fin p) = NaN) = (mda_denominator scoring p = 0 \<and> b = p)"
    by (simp add: mda_ratio_NaN)
  from old nan show ?thesis unfolding bs perm by blast
qed

theorem mda_finite_only_with_nonzero_denominators_witness:
  "(\<exists>imp oos s'. feat_imp_MDA ex_env ex_clf 0 [1, 0, 1, 0] 2 [] None 0 ''neg_log_loss'' ex_state
                    = (Inr (imp, oos), s')
        \<and> is_fin oos \<and> list_all (\<lambda>row. is_fin (fst (snd row)) \<and> is_fin (snd (snd row))) imp)
   \<and> (\<exists>imp oos s'. feat_imp_MDA ex_env ex_clf 0 [0, 1, 0, 1] 2 [] None 0 ''accuracy'' ex_state
                    = (Inr (imp, oos), s')
        \<and> list_ex (\<lambda>row. fst row = ''a'' \<and> \<not> is_fin (fst (snd row))) imp)"
proof -
  let ?t1 = "map (\<lambda>(c, ps). (c, map Fin ps)) [(''a'', [- 3, - 3]), (''b'', [- 1, - 1::real])]"
  let ?t2 = "map (\<lambda>(c, ps). (c, map Fin ps)) [(''a'', [1, 1]), (''b'', [0, 0::real])]"
  from ex_mda_folds obtain s1 where f1:
    "mda_folds ex_env ex_clf 0 [1, 0, 1, 0] None ''neg_log_loss''
             (zip [0..<2] (split ex_env (PurgedKFold 2 [] 0) (heap ex_state 0)))
             (replicate 2 NaN, map (\<lambda>c. (c, replicate 2 NaN)) (columns (heap ex_state 0))) ex_state
           = (Inr (map Fin [- 1, - 1], ?t1), s1)" ..
  from ex_mda_folds_acc obtain s2 where f2:
    "mda_folds ex_env ex_clf 0 [0, 1, 0, 1] None ''accuracy''
             (zip [0..<2] (split ex_env (PurgedKFold 2 [] 0) (heap ex_state 0)))
             (replicate 2 NaN, map (\<lambda>c. (c, replicate 2 NaN)) (columns (heap ex_state 0))) ex_state
           = (Inr (map Fin [0, 0], ?t2), s2)" ..
  have alloc: "(0::nat) < nxt ex_state" by (simp add: ex_state_def)
  have enough: "2 \<le> length (split ex_env (PurgedKFold 2 [] 0) (heap ex_state 0))"
    by (simp add: ex_env_def)
  have v1: "''neg_log_loss'' \<in> set [''neg_log_loss'', ''accuracy'']" by simp
  have v2: "''accuracy'' \<in> set [''neg_log_loss'', ''accuracy'']" by simp
  have d1: "\<forall>(c, ps)\<in>set (reals_of ?t1). \<forall>p\<in>set ps. mda_denominator ''neg_log_loss'' p \<noteq> 0"
    unfolding reals_of_Fin by (simp add: mda_denominator_def)
  note T1 = mda_finite_only_with_nonzero_denominators[OF v1 alloc enough f1]
  from T1 have "1 \<le> (2::nat) \<longrightarrow>
      (\<forall>(c, ps)\<in>set (reals_of ?t1). \<forall>p\<in>set ps. mda_denominator ''neg_log_loss'' p \<noteq> 0) \<longrightarrow>
      (\<exists>imp oos. feat_imp_MDA ex_env ex_clf 0 [1, 0, 1, 0] 2 [] None 0 ''neg_log_loss'' ex_state
                        = (Inr (imp, oos), s1)
             \<and> is_fin oos
             \<and> (\<forall>row\<in>set imp. is_fin (fst (snd row)) \<and> (2 \<le> (2::nat) \<longrightarrow> is_fin (snd (snd row)))))"
    by (elim conjE)
  with d1 obtain imp1 oos1 where r1:
    "feat_imp_MDA ex_env ex_clf 0 [1, 0, 1, 0] 2 [] None 0 ''neg_log_loss'' ex_state
       = (Inr (imp1, oos1), s1)" "is_fin oos1"
    "\<forall>row\<in>set imp1. is_fin (fst (snd row)) \<and> is_fin (snd (snd row))"
    by auto
  have a: "\<exists>imp oos s'. feat_imp_MDA ex_env ex_clf 0 [1, 0, 1, 0] 2 [] None 0 ''neg_log_loss'' ex_state
                    = (Inr (imp, oos), s')
        \<and> is_fin oos \<and> list_all (\<lambda>row. is_fin (fst (snd row)) \<and> is_fin (snd (snd row))) imp"
    using r1 unfolding list_all_iff by blast
  note T2 = mda_finite_only_with_nonzero_denominators[OF v2 alloc enough f2]
  from T2 have "(''a'', [1, 1]) \<in> set (reals_of ?t2) \<longrightarrow> 0 < (2::nat) \<longrightarrow>
          mda_denominator ''accuracy'' ([1, 1] ! 0) = 0 \<longrightarrow>
          map val0 (map Fin [0, 0]) ! 0 \<noteq> [1, 1::real] ! 0 \<longrightarrow>
          (\<exists>imp oos. feat_imp_MDA ex_env ex_clf 0 [0, 1, 0, 1] 2 [] None 0 ''accuracy'' ex_state
                        = (Inr (imp, oos), s2)
             \<and> (\<exists>row\<in>set imp. fst row = ''a'' \<and> \<not> is_fin (fst (snd row))))"
    by (elim conjE allE)
  moreover have "(''a'', [1, 1]) \<in> set (reals_of ?t2)" unfolding reals_of_Fin by simp
  moreover have "0 < (2::nat)" by simp
  moreover have "mda_denominator ''accuracy'' ([1, 1] ! 0) = 0" by (simp add: mda_denominator_def)
  moreover have "map val0 (map Fin [0, 0]) ! 0 \<noteq> [1, 1::real] ! 0" by simp
  ultimately obtain imp2 oos2 where r2:
    "feat_imp_MDA ex_env ex_clf 0 [0, 1, 0, 1] 2 [] None 0 ''accuracy'' ex_state
       = (Inr (imp2, oos2), s2)"
    "\<exists>row\<in>set imp2. fst row = ''a'' \<and> \<not> is_fin (fst (snd row))"
    by blast
  have b: "\<exists>imp oos s'. feat_imp_MDA ex_env ex_clf 0 [0, 1, 0, 1] 2 [] None 0 ''accuracy'' ex_state
                    = (Inr (imp, oos), s')
        \<and> list_ex (\<lambda>row. fst row = ''a'' \<and> \<not> is_fin (fst (snd row))) imp"
    using r2 unfolding list_ex_iff by blast
  from a b show ?thesis by (rule conjI)
qed

lemmas ex3_defs = ex3_X_def ex3_env_def ex3_state_def

text \<open>
  The claim as written fails: the precondition is not necessary. A cell with zero
  denominator and zero improvement is missing, and the mean and the deviation of a
  pandas column leave it out. On the data set of three folds the permuted accuracy of
  feature \<open>b\<close> is exactly 1 in the first fold, and every reported value is finite.
\<close>

theorem mda_zero_denominator_finite_report:
  "(\<exists>s'. mda_folds ex3_env ex_clf 0 [1, 0, 1, 1, 0, 0] None ''accuracy''
             (zip [0..<3] (split ex3_env (PurgedKFold 3 [] 0) (heap ex3_state 0)))
             (replicate 3 NaN, map (\<lambda>c. (c, replicate 3 NaN)) (columns (heap ex3_state 0))) ex3_state
           = (Inr (map Fin [1, 1 / 2, 1 / 2],
                   map (\<lambda>(c, ps). (c, map Fin ps))
                     [(''a'', [0, 1 / 2, 1 / 2]), (''b'', [1, 1 / 2, 1 / 2])]), s'))
   \<and> mda_denominator ''accuracy'' 1 = 0
   \<and> fst (feat_imp_MDA ex3_env ex_clf 0 [1, 0, 1, 1, 0, 0] 3 [] None 0 ''accuracy'' ex3_state)
       = Inr ([(''a'', Fin (1 / 3), Fin (sqrt (1 / 3) * sqrt 3)), (''b'', Fin 0, Fin 0)], Fin (2 / 3))"
proof -
  have a: "\<exists>s'. mda_folds ex3_env ex_clf 0 [1, 0, 1, 1, 0, 0] None ''accuracy''
             (zip [0..<3] (split ex3_env (PurgedKFold 3 [] 0) (heap ex3_state 0)))
             (replicate 3 NaN, map (\<lambda>c. (c, replicate 3 NaN)) (columns (heap ex3_state 0))) ex3_state
           = (Inr (map Fin [1, 1 / 2, 1 / 2],
                   map (\<lambda>(c, ps). (c, map Fin ps))
                     [(''a'', [0, 1 / 2, 1 / 2]), (''b'', [1, 1 / 2, 1 / 2])]), s')"
    by (simp add: mda_eval ex_defs ex3_defs eval_nat_numeral)
  have b: "mda_denominator ''accuracy'' 1 = 0" by (simp add: mda_denominator_def)
  have c: "fst (feat_imp_MDA ex3_env ex_clf 0 [1, 0, 1, 1, 0, 0] 3 [] None 0 ''accuracy'' ex3_state)
       = Inr ([(''a'', Fin (1 / 3), Fin (sqrt (1 / 3) * sqrt 3)), (''b'', Fin 0, Fin 0)], Fin (2 / 3))"
    by (simp add: feat_imp_MDA_def mda_report_def mda_ratio_def pd_mean_def pd_std_def fsum_def
          notna_def fsub_def mda_eval ex_defs ex3_defs eval_nat_numeral)
  from a b c show ?thesis by blast
qed

section \<open>The orchestrator: the first fit\<close>

lemma log_extended_refl: "log_extended s s"
  by (simp add: log_extended_def)

lemma log_extended_trans: "log_extended s s' \<Longrightarrow> log_extended s' s'' \<Longrightarrow> log_extended s s''"
  by (auto simp: log_extended_def)

lemma log_extended_add_log: "log_extended s (add_log evs s)"
  by (simp add: log_extended_def add_log_def)

lemma log_extended_fold_mda_col:
  "log_extended s (snd (fold (mda_col e scoring clf_fit aT y_test w_test idx) cols (tab, s)))"
proof (induction cols arbitrary: tab s)
  case Nil
  then show ?case by (simp add: log_extended_refl)
next
  case (Cons col cols)
  obtain tab' s' where r: "mda_col e scoring clf_fit aT y_test w_test idx col (tab, s) = (tab', s')"
    by (cases "mda_col e scoring clf_fit aT y_test w_test idx col (tab, s)")
  then have "fit_log s' = fit_log s"
    by (auto simp: mda_col_def Let_def alloc_def shuffle_column_def split: prod.splits)
  then have "log_extended s s'" by (simp add: log_extended_def)
  from log_extended_trans[OF this Cons.IH[of s' tab']] show ?case by (simp add: r)
qed

lemma log_extended_mda_fold:
  "log_extended s (snd (mda_fold e clf aX y sample_weight scoring fld tabs s))"
proof -
  obtain idx train test where fld: "fld = (idx, train, test)" by (cases fld)
  obtain scores scores_perm where tabs: "tabs = (scores, scores_perm)" by (cases tabs)
  let ?al = "\<lambda>X. s\<lparr>heap := (heap s)(nxt s := X), nxt := Suc (nxt s)\<rparr>"
  have a: "log_extended s (?al X)" for X
    by (simp add: log_extended_def)
  have b: "log_extended s (add_log evs (?al X))" for X evs
    by (rule log_extended_trans[OF a log_extended_add_log])
  have c: "log_extended s s'"
    if "fold (mda_col e scoring clf_fit aT y_test w_test idx) cols (tab, add_log evs (?al X)) = (tab', s')"
    for X evs clf_fit aT y_test w_test cols tab tab' s'
    using log_extended_trans[OF b log_extended_fold_mda_col[of "add_log evs (?al X)" e scoring clf_fit aT
          y_test w_test idx cols tab]] that by simp
  show ?thesis
    unfolding mda_fold_def fld tabs
    by (auto simp: Let_def alloc_def log_extended_refl a b split: sum.splits prod.splits intro: c)
qed

lemma log_extended_mda_folds:
  "log_extended s (snd (mda_folds e clf aX y sample_weight scoring flds tabs s))"
proof (induction flds arbitrary: tabs s)
  case Nil
  then show ?case by (simp add: log_extended_refl)
next
  case (Cons fld flds)
  obtain r s' where r: "mda_fold e clf aX y sample_weight scoring fld tabs s = (r, s')"
    by (cases "mda_fold e clf aX y sample_weight scoring fld tabs s")
  have k: "log_extended s s'"
    using log_extended_mda_fold[of s e clf aX y sample_weight scoring fld tabs] by (simp add: r)
  show ?case
  proof (cases r)
    case (Inl err)
    then show ?thesis using k by (simp add: r)
  next
    case (Inr tabs')
    have "log_extended s' (snd (mda_folds e clf aX y sample_weight scoring flds tabs' s'))"
      by (rule Cons.IH)
    with k show ?thesis by (simp add: r Inr log_extended_trans)
  qed
qed

lemma log_extended_feat_imp_MDA:
  "log_extended s (snd (feat_imp_MDA e clf aX y n_splits t1 sample_weight pct_embargo scoring s))"
proof (cases "scoring \<in> set [''neg_log_loss'', ''accuracy'']")
  case False
  then show ?thesis by (simp add: feat_imp_MDA_def log_extended_refl)
next
  case True
  let ?r = "mda_folds e clf aX y sample_weight scoring
              (zip [0..<n_splits] (split e (PurgedKFold n_splits t1 pct_embargo) (heap s aX)))
              (replicate n_splits NaN, map (\<lambda>c. (c, replicate n_splits NaN)) (columns (heap s aX))) s"
  have "log_extended s (snd ?r)" by (rule log_extended_mda_folds)
  moreover have "snd (feat_imp_MDA e clf aX y n_splits t1 sample_weight pct_embargo scoring s) = snd ?r"
    using True by (auto simp: feat_imp_MDA_def Let_def split: prod.splits sum.splits)
  ultimately show ?thesis by simp
qed

lemma log_extended_sfi_loop:
  "log_extended s (snd (sfi_loop cv_score call X names imp s))"
proof (induction names arbitrary: imp s)
  case Nil
  then show ?case by (simp add: log_extended_refl)
next
  case (Cons c names)
  obtain r evs where r: "cv_score (call\<lparr>cv_X := select_columns X c\<rparr>) = (r, evs)"
    by (cases "cv_score (call\<lparr>cv_X := select_columns X c\<rparr>)")
  show ?case
  proof (cases r)
    case (Inl err)
    then show ?thesis by (simp add: r log_extended_add_log)
  next
    case (Inr sc)
    from log_extended_trans[OF log_extended_add_log Cons.IH] show ?thesis
      by (simp add: r Inr Let_def)
  qed
qed

lemma log_extended_feat_imp_SFI_call:
  "log_extended s (snd (feat_imp_SFI_call cv_score kwargs s))"
proof (cases "check_call feat_imp_SFI_params (map fst kwargs)")
  case (Some err)
  then show ?thesis by (simp add: feat_imp_SFI_call_def log_extended_refl)
next
  case None
  show ?thesis
    by (cases "kw_clf kwargs ''clf''"; cases "kw_frame kwargs ''X''"; cases "kw_labels kwargs ''y''")
       (simp_all add: feat_imp_SFI_call_def None feat_imp_SFI_def log_extended_refl
          log_extended_sfi_loop)
qed

lemma log_extended_run_tasks:
  assumes "\<And>job s. log_extended s (snd (func job s))"
  shows "log_extended s (snd (run_tasks func jobs s))"
proof (induction jobs arbitrary: s)
  case Nil
  then show ?case by (simp add: log_extended_refl)
next
  case (Cons job jobs)
  obtain r s' where r: "func job s = (r, s')" by (cases "func job s")
  have k: "log_extended s s'" using assms[of s job] by (simp add: r)
  show ?case
  proof (cases r)
    case (Inl err)
    then show ?thesis using k by (simp add: r)
  next
    case (Inr out)
    from log_extended_trans[OF k Cons.IH[of s']] show ?thesis
      by (auto simp: r Inr split: prod.splits sum.splits)
  qed
qed

lemma log_extended_mp_pandas_obj:
  "log_extended s (snd (mp_pandas_obj (feat_imp_SFI_call cv_score) pd_obj num_threads kwargs s))"
  by (cases pd_obj) (simp add: mp_pandas_obj_def log_extended_run_tasks log_extended_feat_imp_SFI_call)

text \<open>Whatever the method, the first fit logged by \<open>feat_importance\<close> is that of the
  prototype on the full data set; the fits that follow are those of the estimator.\<close>

lemma feat_importance_fits_first:
  "\<exists>evs. fit_log (snd (feat_importance e cv_score aX cont clf0 n_estimators n_splits max_samples
                          num_threads pct_embargo scoring method min_w_leaf s))
     = fit_log s @ EvFit (build_clf clf0 num_threads n_estimators max_samples min_w_leaf) (heap s aX)
                     (cont_size cont) (Some (cont_w cont)) # evs"
proof -
  let ?clf = "build_clf clf0 num_threads n_estimators max_samples min_w_leaf"
  let ?s1 = "add_log [EvFit ?clf (heap s aX) (cont_size cont) (Some (cont_w cont))] s"
  have "log_extended ?s1 (snd (feat_importance e cv_score aX cont clf0 n_estimators n_splits max_samples
                          num_threads pct_embargo scoring method min_w_leaf s))"
  proof -
    have mda_ext: "log_extended ?s1 s2"
      if "feat_imp_MDA e ?clf aX (cont_size cont) n_splits (cont_t1 cont) (Some (cont_w cont))
            pct_embargo scoring ?s1 = (r, s2)" for r s2
      using log_extended_feat_imp_MDA[of ?s1 e ?clf aX "cont_size cont" n_splits "cont_t1 cont"
          "Some (cont_w cont)" pct_embargo scoring] that by simp
    have mp_ext: "log_extended ?s1 s3"
      if "mp_pandas_obj (feat_imp_SFI_call cv_score) pd_obj num_threads kwargs (add_log evs ?s1) = (r, s3)"
      for pd_obj kwargs evs r s3
      using log_extended_trans[OF log_extended_add_log
          log_extended_mp_pandas_obj[of "add_log evs ?s1" cv_score pd_obj num_threads kwargs]] that
      by simp
    show ?thesis
    proof (cases "fit e ?clf (heap s aX) (cont_size cont) (Some (cont_w cont))")
      case (Inl err)
      then show ?thesis by (simp add: feat_importance_def Let_def log_extended_refl)
    next
      case (Inr fit_clf)
      consider (mdi) "method = ''MDI''" | (mda) "method = ''MDA''" | (sfi) "method = ''SFI''"
        | (other) "method \<notin> set [''MDI'', ''MDA'', ''SFI'']" by auto
      then show ?thesis
      proof cases
        case mdi
        then show ?thesis
          by (simp add: feat_importance_def Let_def Inr log_extended_refl log_extended_add_log
                split: sum.splits prod.splits)
      next
        case mda
        obtain r s2 where r: "feat_imp_MDA e ?clf aX (cont_size cont) n_splits (cont_t1 cont)
            (Some (cont_w cont)) pct_embargo scoring ?s1 = (r, s2)"
          by (cases "feat_imp_MDA e ?clf aX (cont_size cont) n_splits (cont_t1 cont)
            (Some (cont_w cont)) pct_embargo scoring ?s1")
        from mda_ext[OF r] show ?thesis
          by (cases r) (auto simp: feat_importance_def Let_def Inr \<open>method = ''MDA''\<close> r)
      next
        case sfi
        let ?call = "\<lparr>cv_clf = ?clf, cv_X = heap s aX, cv_y = cont_size cont,
                          cv_sample_weight = Some (cont_w cont), cv_scoring = scoring,
                          cv_n_splits = None, cv_t1 = None,
                          cv_gen_arg = Some (PurgedKFold n_splits (cont_t1 cont) pct_embargo),
                          cv_pct_embargo = None, cv_purging = None\<rparr>"
        obtain r evs where r: "cv_score ?call = (r, evs)" by (cases "cv_score ?call")
        show ?thesis
        proof (cases r)
          case (Inl err)
          then show ?thesis
            by (simp add: feat_importance_def Let_def Inr sfi r log_extended_add_log)
        next
          case scores: (Inr scores)
          let ?mp = "mp_pandas_obj (feat_imp_SFI_call cv_score)
                               (''feat_names'', columns (heap s aX)) num_threads
                               [(''clf'', VClf (?clf\<lparr>n_jobs := 1\<rparr>)), (''X'', VFrame (heap s aX)),
                                (''cont'', VCont cont), (''scoring'', VStr scoring),
                                (''cv_gen'', VCvGen (PurgedKFold n_splits (cont_t1 cont) pct_embargo))]
                               (add_log evs ?s1)"
          obtain r3 s3 where r3: "?mp = (r3, s3)" by (cases ?mp)
          from mp_ext[OF r3] show ?thesis
            by (cases r3) (simp_all add: feat_importance_def Let_def Inr sfi r scores r3)
        qed
      next
        case other
        then show ?thesis by (simp add: feat_importance_def Let_def Inr log_extended_refl)
      qed
    qed
  qed
  then show ?thesis by (auto simp: log_extended_def add_log_def)
qed

lemma feat_importance_MDI_returns_triple:
  assumes "fit e (build_clf clf0 num_threads n_estimators max_samples min_w_leaf) (heap s aX)
              (cont_size cont) (Some (cont_w cont)) = Inr fit_clf"
      and "fst (feat_importance e cv_score aX cont clf0 n_estimators n_splits max_samples
                 num_threads pct_embargo scoring ''MDI'' min_w_leaf s) = Inr (imp, oob, oos)"
  shows "feat_imp_MDI fit_clf (columns (heap s aX)) = Inr imp \<and> oob = oob_score fit_clf
         \<and> (\<exists>scores. oos = Scalar (np_mean scores))"
  using assms
  by (auto simp: feat_importance_def Let_def split: sum.splits prod.splits)

lemma feat_importance_MDA_returns_triple:
  assumes "fit e (build_clf clf0 num_threads n_estimators max_samples min_w_leaf) (heap s aX)
              (cont_size cont) (Some (cont_w cont)) = Inr fit_clf"
      and "fst (feat_importance e cv_score aX cont clf0 n_estimators n_splits max_samples
                 num_threads pct_embargo scoring ''MDA'' min_w_leaf s) = Inr (imp, oob, oos)"
  shows "oob = oob_score fit_clf
         \<and> (\<exists>oos_mean s1 s2. oos = Scalar oos_mean \<and>
               feat_imp_MDA e (build_clf clf0 num_threads n_estimators max_samples min_w_leaf) aX
                 (cont_size cont) n_splits (cont_t1 cont) (Some (cont_w cont)) pct_embargo scoring s1
               = (Inr (imp, oos_mean), s2))"
  using assms
  by (auto simp: feat_importance_def Let_def split: sum.splits prod.splits)

end
